theory Spec2Isabelle
  imports Complex_Main "HOL-Library.Word"
begin

unbundle bit_operations_syntax

section \<open>The ThingSet message codec\<close>

text \<open>
  A shallow embedding of \<^verbatim>\<open>thingset/__init__.py\<close>: a ThingSet message is one function
  byte followed by a CBOR map. Python exceptions are values of \<open>py_error\<close> (\<open>Inl\<close> of a
  sum), a \<^verbatim>\<open>bytes\<close> object is a list of 8-bit words, a Python \<^verbatim>\<open>int\<close> is an \<open>int\<close>, a
  Python \<^verbatim>\<open>float\<close> is the 64-bit pattern of its IEEE-754 double, a \<^verbatim>\<open>str\<close> is the list of
  the bytes of its UTF-8 encoding, and a \<^verbatim>\<open>dict\<close> is an association list in insertion
  order. Names are the source's; a leading underscore of a
  private function is dropped.
\<close>

subsection \<open>Bytes, values and errors\<close>

type_synonym byte = "8 word"
type_synonym bytes = "byte list"

text \<open>
  The Python values that the CBOR library returns and that occur as payload keys and
  values: besides the built-in ones, the library's \<^verbatim>\<open>undefined\<close>, \<^verbatim>\<open>CBORSimpleValue(n)\<close>,
  \<^verbatim>\<open>CBORTag(n, v)\<close> and \<^verbatim>\<open>break_marker\<close> (a plain \<^verbatim>\<open>object()\<close>). \<open>PObject c\<close> stands for an
  object of any other class \<open>c\<close>, such as the dates, decimals and patterns that the library
  builds for the tags it knows; of such an object only the class is described.
\<close>

datatype pyval =
    PInt int
  | PFloat "64 word"
  | PBool bool
  | PNone
  | PBytes bytes
  | PList "pyval list"
  | PDict "(pyval \<times> pyval) list"
  | PStr bytes
  | PByteArray bytes
  | PUndefined
  | PSimple nat
  | PTag nat pyval
  | PBreak
  | PObject string

text \<open>What \<^verbatim>\<open>type(v)\<close> prints as.\<close>

fun type_repr :: "pyval \<Rightarrow> string" where
  "type_repr (PInt _) = ''<class '' @ [CHR 0x27] @ ''int'' @ [CHR 0x27] @ ''>''"
| "type_repr (PFloat _) = ''<class '' @ [CHR 0x27] @ ''float'' @ [CHR 0x27] @ ''>''"
| "type_repr (PBool _) = ''<class '' @ [CHR 0x27] @ ''bool'' @ [CHR 0x27] @ ''>''"
| "type_repr PNone = ''<class '' @ [CHR 0x27] @ ''NoneType'' @ [CHR 0x27] @ ''>''"
| "type_repr (PBytes _) = ''<class '' @ [CHR 0x27] @ ''bytes'' @ [CHR 0x27] @ ''>''"
| "type_repr (PList _) = ''<class '' @ [CHR 0x27] @ ''list'' @ [CHR 0x27] @ ''>''"
| "type_repr (PDict _) = ''<class '' @ [CHR 0x27] @ ''dict'' @ [CHR 0x27] @ ''>''"
| "type_repr (PStr _) = ''<class '' @ [CHR 0x27] @ ''str'' @ [CHR 0x27] @ ''>''"
| "type_repr (PByteArray _) = ''<class '' @ [CHR 0x27] @ ''bytearray'' @ [CHR 0x27] @ ''>''"
| "type_repr PUndefined =
     ''<class '' @ [CHR 0x27] @ ''cbor2.types.UndefinedType'' @ [CHR 0x27] @ ''>''"
| "type_repr (PSimple _) =
     ''<class '' @ [CHR 0x27] @ ''cbor2.types.CBORSimpleValue'' @ [CHR 0x27] @ ''>''"
| "type_repr (PTag _ _) =
     ''<class '' @ [CHR 0x27] @ ''cbor2.types.CBORTag'' @ [CHR 0x27] @ ''>''"
| "type_repr PBreak = ''<class '' @ [CHR 0x27] @ ''object'' @ [CHR 0x27] @ ''>''"
| "type_repr (PObject c) = ''<class '' @ [CHR 0x27] @ c @ [CHR 0x27] @ ''>''"

text \<open>
  Failures inside the CBOR library: the stream ends early, a header byte has a subtype
  the decoder rejects, a text string is not UTF-8, the value under a tag is not one the
  decoder of the tag accepts, or a value has no encoder. \<open>NotModelled\<close> marks what lies
  outside the part of the library modelled here: the decoders that the library has for
  tags other than 1, 2 and 3, and map keys other than integers, byte strings, text
  strings, \<^verbatim>\<open>None\<close>, \<^verbatim>\<open>undefined\<close> and the break marker.
\<close>

datatype cbor_failure =
    PrematureEnd
  | UnknownSubtype nat
  | InvalidUTF8
  | InvalidTaggedValue
  | CannotSerialize
  | NotModelled

datatype py_error =
    IndexError
  | ParsingError string
  | CBORLayerError cbor_failure
  | KeyError string
  | OverflowError
  | StructError

subsection \<open>The function byte\<close>

datatype ThingsetFunction =
    READ
  | WRITE
  | LIST
  | GET_DATA_OBJECT_NAME
  | PUBLICATION_REQUEST
  | AUTHENTICATION
  | PRELIMINARY
  | PUBLICATION_MESSAGE

text \<open>The \<^verbatim>\<open>.value\<close> of an enumeration member.\<close>

fun function_value :: "ThingsetFunction \<Rightarrow> nat" where
  "function_value READ = 0x01"
| "function_value WRITE = 0x02"
| "function_value LIST = 0x03"
| "function_value GET_DATA_OBJECT_NAME = 0x04"
| "function_value PUBLICATION_REQUEST = 0x05"
| "function_value AUTHENTICATION = 0x06"
| "function_value PRELIMINARY = 0x07"
| "function_value PUBLICATION_MESSAGE = 0x1F"

text \<open>Iterating over the enumeration visits its members in definition order.\<close>

definition ThingsetFunction_members :: "ThingsetFunction list" where
  "ThingsetFunction_members =
     [READ, WRITE, LIST, GET_DATA_OBJECT_NAME, PUBLICATION_REQUEST, AUTHENTICATION,
      PRELIMINARY, PUBLICATION_MESSAGE]"

text \<open>\<^verbatim>\<open>str(n)\<close> of a non-negative integer: its decimal digits.\<close>

fun str_nat_aux :: "nat \<Rightarrow> nat \<Rightarrow> string \<Rightarrow> string" where
  "str_nat_aux 0 n acc = acc"
| "str_nat_aux (Suc fuel) n acc =
     (if n < 10 then char_of (48 + n) # acc
      else str_nat_aux fuel (n div 10) (char_of (48 + n mod 10) # acc))"

definition str_nat :: "nat \<Rightarrow> string" where
  "str_nat n = str_nat_aux (Suc n) n []"

text \<open>The loop of \<^verbatim>\<open>_parse_thingset_msg_function\<close> over the enumeration.\<close>

fun match_function :: "nat \<Rightarrow> ThingsetFunction list \<Rightarrow> ThingsetFunction option" where
  "match_function function_byte [] = None"
| "match_function function_byte (protocol_function # more) =
     (if function_value protocol_function = function_byte then Some protocol_function
      else match_function function_byte more)"

definition parse_thingset_msg_function :: "bytes \<Rightarrow> py_error + ThingsetFunction" where
  "parse_thingset_msg_function msg =
     (case msg of
        [] \<Rightarrow> Inl IndexError
      | b # _ \<Rightarrow>
          (let function_byte = unat b in
           case match_function function_byte ThingsetFunction_members of
             Some protocol_function \<Rightarrow> Inr protocol_function
           | None \<Rightarrow>
               Inl (ParsingError (''Thingset function '' @ [CHR 0x27] @ str_nat function_byte
                      @ [CHR 0x27] @ '' is not implemented''))))"

subsection \<open>Fixed-width integers on the wire\<close>

text \<open>
  \<^verbatim>\<open>struct.pack\<close> with the big-endian formats \<^verbatim>\<open>>B\<close>, \<^verbatim>\<open>>H\<close>, \<^verbatim>\<open>>L\<close> and \<^verbatim>\<open>>Q\<close> writes an
  unsigned integer on 1, 2, 4 or 8 bytes, most significant byte first, and raises
  \<^verbatim>\<open>struct.error\<close> when the integer does not fit; \<^verbatim>\<open>struct.unpack\<close> reads it back.
\<close>

fun be_bytes :: "nat \<Rightarrow> nat \<Rightarrow> bytes" where
  "be_bytes 0 n = []"
| "be_bytes (Suc k) n = be_bytes k (n div 256) @ [word_of_nat (n mod 256)]"

fun be_nat_acc :: "nat \<Rightarrow> bytes \<Rightarrow> nat" where
  "be_nat_acc acc [] = acc"
| "be_nat_acc acc (b # bs) = be_nat_acc (acc * 256 + unat b) bs"

definition be_nat :: "bytes \<Rightarrow> nat" where
  "be_nat bs = be_nat_acc 0 bs"

definition struct_pack_uint :: "nat \<Rightarrow> nat \<Rightarrow> py_error + bytes" where
  "struct_pack_uint k n = (if n < 256 ^ k then Inr (be_bytes k n) else Inl StructError)"

subsection \<open>IEEE-754 binary floating point\<close>

text \<open>
  A binary format has \<open>F\<close> fraction bits and \<open>W\<close> exponent bits (binary16: 10 and 5,
  binary32: 23 and 8, binary64: 52 and 11). A bit pattern is the natural number
  \<open>sign * 2 ^ (F + W) + exponent * 2 ^ F + fraction\<close>. Rounding is to nearest, ties to
  even, computed exactly on a non-negative rational \<open>p / q\<close>.
\<close>

function bit_length :: "nat \<Rightarrow> nat" where
  "bit_length n = (if n = 0 then 0 else Suc (bit_length (n div 2)))"
  by pat_completeness auto
termination
  by (relation "measure id") auto

declare bit_length.simps [simp del]

text \<open>The integer \<open>l\<close> with \<open>2 ^ l \<le> p / q < 2 ^ (l + 1)\<close>, for positive \<open>p\<close> and \<open>q\<close>.\<close>

definition floor_log2 :: "nat \<Rightarrow> nat \<Rightarrow> int" where
  "floor_log2 p q =
     (let d = int (bit_length p) - int (bit_length q) in
      if (if 0 \<le> d then q * 2 ^ nat d \<le> p else q \<le> p * 2 ^ nat (- d)) then d else d - 1)"

text \<open>The integer nearest to \<open>a / b\<close>, the even one of two equally near.\<close>

definition round_half_even :: "nat \<Rightarrow> nat \<Rightarrow> nat" where
  "round_half_even a b =
     (let d = a div b; r = a mod b in
      if b < 2 * r \<or> (2 * r = b \<and> odd d) then d + 1 else d)"

text \<open>The integer nearest to \<open>(p / q) / 2 ^ e\<close>.\<close>

definition round_scaled :: "nat \<Rightarrow> nat \<Rightarrow> int \<Rightarrow> nat" where
  "round_scaled p q e =
     (if 0 \<le> e then round_half_even p (q * 2 ^ nat e)
      else round_half_even (p * 2 ^ nat (- e)) q)"

text \<open>The exponent of the smallest subnormal step: -24, -149 and -1074.\<close>

definition quantum_min :: "nat \<Rightarrow> nat \<Rightarrow> int" where
  "quantum_min F W = 2 - 2 ^ (W - 1) - int F"

definition inf_pattern :: "nat \<Rightarrow> nat \<Rightarrow> nat" where
  "inf_pattern F W = (2 ^ W - 1) * 2 ^ F"

text \<open>
  The pattern (without sign) of the value of the format nearest to \<open>p / q\<close>. A result at
  or above \<open>inf_pattern\<close> says that \<open>p / q\<close> rounds beyond the largest finite value.
\<close>

definition ieee_round :: "nat \<Rightarrow> nat \<Rightarrow> nat \<Rightarrow> nat \<Rightarrow> nat" where
  "ieee_round F W p q =
     (if p = 0 then 0
      else let e = max (floor_log2 p q - int F) (quantum_min F W)
           in nat (e - quantum_min F W) * 2 ^ F + round_scaled p q e)"

definition ieee_sign :: "nat \<Rightarrow> nat \<Rightarrow> nat \<Rightarrow> nat" where
  "ieee_sign F W n = (n div 2 ^ (F + W)) mod 2"

definition ieee_exponent :: "nat \<Rightarrow> nat \<Rightarrow> nat \<Rightarrow> nat" where
  "ieee_exponent F W n = (n div 2 ^ F) mod 2 ^ W"

definition ieee_fraction :: "nat \<Rightarrow> nat \<Rightarrow> nat" where
  "ieee_fraction F n = n mod 2 ^ F"

definition ieee_isnan :: "nat \<Rightarrow> nat \<Rightarrow> nat \<Rightarrow> bool" where
  "ieee_isnan F W n \<longleftrightarrow> ieee_exponent F W n = 2 ^ W - 1 \<and> ieee_fraction F n \<noteq> 0"

definition ieee_isinf :: "nat \<Rightarrow> nat \<Rightarrow> nat \<Rightarrow> bool" where
  "ieee_isinf F W n \<longleftrightarrow> ieee_exponent F W n = 2 ^ W - 1 \<and> ieee_fraction F n = 0"

text \<open>
  The absolute value of a finite pattern, as numerator and denominator: the significand
  times a power of two.
\<close>

definition ieee_magnitude :: "nat \<Rightarrow> nat \<Rightarrow> nat \<Rightarrow> nat \<times> nat" where
  "ieee_magnitude F W n =
     (let e = ieee_exponent F W n;
          f = ieee_fraction F n;
          m = (if e = 0 then f else 2 ^ F + f);
          x = int (max e 1) - 1 + quantum_min F W
      in if 0 \<le> x then (m * 2 ^ nat x, 1) else (m, 2 ^ nat (- x)))"

text \<open>
  The C conversion between two formats (\<^verbatim>\<open>(float) x\<close>, \<^verbatim>\<open>(double) y\<close>): the sign is kept,
  an infinity stays one, a NaN stays a quiet NaN with the leading bits of its payload, a
  finite value is rounded to nearest and becomes an infinity when it rounds beyond the
  largest finite value of the target.
\<close>

definition ieee_cast :: "nat \<Rightarrow> nat \<Rightarrow> nat \<Rightarrow> nat \<Rightarrow> nat \<Rightarrow> nat" where
  "ieee_cast F W F' W' n =
     (let s = ieee_sign F W n * 2 ^ (F' + W');
          f = ieee_fraction F n
      in if ieee_isinf F W n then s + inf_pattern F' W'
         else if ieee_isnan F W n then
           s + inf_pattern F' W'
             + ((if F' \<le> F then f div 2 ^ (F - F') else f * 2 ^ (F' - F)) OR 2 ^ (F' - 1))
         else (case ieee_magnitude F W n of
                 (p, q) \<Rightarrow> s + min (ieee_round F' W' p q) (inf_pattern F' W')))"

text \<open>
  \<^verbatim>\<open>struct.pack(">f", x)\<close>: the double is converted to single precision; a finite double
  whose conversion is an infinity raises \<^verbatim>\<open>OverflowError\<close> ("float too large to pack
  with f format"). \<^verbatim>\<open>struct.unpack(">f", b)\<close>, \<^verbatim>\<open>(">e", b)\<close> and \<^verbatim>\<open>(">d", b)\<close> read a
  single, half or double precision value into a Python float.
\<close>

definition struct_pack_f :: "64 word \<Rightarrow> py_error + bytes" where
  "struct_pack_f x =
     (let y = ieee_cast 52 11 23 8 (unat x) in
      if ieee_isinf 23 8 y \<and> \<not> ieee_isinf 52 11 (unat x) then Inl OverflowError
      else Inr (be_bytes 4 y))"

definition struct_pack_d :: "64 word \<Rightarrow> bytes" where
  "struct_pack_d x = be_bytes 8 (unat x)"

definition struct_unpack_e :: "bytes \<Rightarrow> 64 word" where
  "struct_unpack_e bs = word_of_nat (ieee_cast 10 5 52 11 (be_nat bs))"

definition struct_unpack_f :: "bytes \<Rightarrow> 64 word" where
  "struct_unpack_f bs = word_of_nat (ieee_cast 23 8 52 11 (be_nat bs))"

definition struct_unpack_d :: "bytes \<Rightarrow> 64 word" where
  "struct_unpack_d bs = word_of_nat (be_nat bs)"

text \<open>
  The float written \<open>m / 10 ^ k\<close> in decimal, such as \<^verbatim>\<open>15.2\<close> (152 / 10): the double
  nearest to it.
\<close>

definition float_of_decimal :: "nat \<Rightarrow> nat \<Rightarrow> 64 word" where
  "float_of_decimal m k = word_of_nat (ieee_round 52 11 m (10 ^ k))"

text \<open>
  The built-in \<^verbatim>\<open>round(x, ndigits)\<close> on a float. NaNs and infinities round to
  themselves; beyond 323 digits every double is its own rounding and below -308 digits
  every double rounds to zero; otherwise the exact value of \<open>x\<close> is rounded to the nearest
  multiple of \<open>10 ^ - ndigits\<close>, ties to even, and the double nearest to that decimal is
  returned, with the sign of \<open>x\<close>. A decimal beyond the largest double raises
  \<^verbatim>\<open>OverflowError\<close> ("rounded value too large to represent").
\<close>

definition py_round :: "64 word \<Rightarrow> int \<Rightarrow> py_error + 64 word" where
  "py_round x ndigits =
     (let n = unat x; s = ieee_sign 52 11 n * 2 ^ 63 in
      if ieee_exponent 52 11 n = 2047 then Inr x
      else if 323 < ndigits then Inr x
      else if ndigits < - 308 then Inr (word_of_nat s)
      else (case ieee_magnitude 52 11 n of
              (p, q) \<Rightarrow>
                (let m = (if 0 \<le> ndigits
                          then ieee_round 52 11
                                 (round_half_even (p * 10 ^ nat ndigits) q) (10 ^ nat ndigits)
                          else ieee_round 52 11
                                 (round_half_even p (q * 10 ^ nat (- ndigits))
                                    * 10 ^ nat (- ndigits)) 1)
                 in if inf_pattern 52 11 \<le> m then Inl OverflowError
                    else Inr (word_of_nat (s + m)))))"

subsection \<open>Dictionaries\<close>

text \<open>
  A \<^verbatim>\<open>dict\<close> keeps its entries in insertion order. \<^verbatim>\<open>d[k] = v\<close> replaces the value of a
  key that is present, in place, and otherwise appends the entry; \<^verbatim>\<open>k in d\<close> and \<^verbatim>\<open>d[k]\<close>
  are \<open>map_of d k\<close>.
\<close>

fun dict_set :: "('k \<times> 'v) list \<Rightarrow> 'k \<Rightarrow> 'v \<Rightarrow> ('k \<times> 'v) list" where
  "dict_set [] k v = [(k, v)]"
| "dict_set ((k', v') # d) k v =
     (if k' = k then (k', v) # d else (k', v') # dict_set d k v)"

subsection \<open>The CBOR library: encoding\<close>

text \<open>
  The functions of \<^verbatim>\<open>cbor2\<close> the module calls, for the values of \<open>pyval\<close>.
  \<^verbatim>\<open>encode_length(major_tag, length)\<close> puts a length below 24 into the initial byte and
  otherwise writes it on 1, 2, 4 or 8 bytes after an initial byte whose low bits are 24,
  25, 26 or 27.
\<close>

definition encode_length :: "nat \<Rightarrow> nat \<Rightarrow> py_error + bytes" where
  "encode_length major_tag len =
     (if len < 24 then Inr [word_of_nat (major_tag OR len)]
      else if len < 256 then Inr (word_of_nat (major_tag OR 24) # be_bytes 1 len)
      else if len < 65536 then Inr (word_of_nat (major_tag OR 25) # be_bytes 2 len)
      else if len < 4294967296 then Inr (word_of_nat (major_tag OR 26) # be_bytes 4 len)
      else (case struct_pack_uint 8 len of
              Inl e \<Rightarrow> Inl e
            | Inr b \<Rightarrow> Inr (word_of_nat (major_tag OR 27) # b)))"

text \<open>
  An integer of at most 64 bits is a major type 0 or 1 item; a larger one is a byte
  string of its base-256 digits under tag 2 or 3.
\<close>

definition encode_int :: "int \<Rightarrow> py_error + bytes" where
  "encode_int v =
     (if 18446744073709551616 \<le> v \<or> v < - 18446744073709551616 then
        (let major_type = (if 0 \<le> v then 0x02 else 0x03);
             n = (if 0 \<le> v then nat v else nat (- v - 1));
             payload = be_bytes ((bit_length n + 7) div 8) n
         in case encode_length 0xC0 major_type of
              Inl e \<Rightarrow> Inl e
            | Inr t \<Rightarrow>
                (case encode_length 0x40 (length payload) of
                   Inl e \<Rightarrow> Inl e
                 | Inr h \<Rightarrow> Inr (t @ h @ payload)))
      else if 0 \<le> v then encode_length 0 (nat v)
      else encode_length 0x20 (nat (\<bar>v\<bar> - 1)))"

text \<open>
  The library's own float encoder, which the module bypasses for the values of a payload:
  a NaN and the infinities in half precision, every other float in double precision.
\<close>

definition encode_float :: "64 word \<Rightarrow> bytes" where
  "encode_float x =
     (if ieee_isnan 52 11 (unat x) then [0xF9, 0x7E, 0x00]
      else if ieee_isinf 52 11 (unat x) then
        (if ieee_sign 52 11 (unat x) = 0 then [0xF9, 0x7C, 0x00] else [0xF9, 0xFC, 0x00])
      else 0xFB # struct_pack_d x)"

text \<open>Running a list of results in order, stopping at the first exception.\<close>

fun collect :: "(py_error + 'a) list \<Rightarrow> py_error + 'a list" where
  "collect [] = Inr []"
| "collect (r # rs) =
     (case r of
        Inl e \<Rightarrow> Inl e
      | Inr x \<Rightarrow> (case collect rs of Inl e \<Rightarrow> Inl e | Inr xs \<Rightarrow> Inr (x # xs)))"

text \<open>\<^verbatim>\<open>CBOREncoder.encode\<close>: the bytes of one value.\<close>

fun cbor2_encode :: "pyval \<Rightarrow> py_error + bytes" where
  "cbor2_encode (PInt v) = encode_int v"
| "cbor2_encode (PFloat x) = Inr (encode_float x)"
| "cbor2_encode (PBool b) = Inr [if b then 0xF5 else 0xF4]"
| "cbor2_encode PNone = Inr [0xF6]"
| "cbor2_encode (PBytes bs) =
     (case encode_length 0x40 (length bs) of Inl e \<Rightarrow> Inl e | Inr h \<Rightarrow> Inr (h @ bs))"
| "cbor2_encode (PList xs) =
     (case encode_length 0x80 (length xs) of
        Inl e \<Rightarrow> Inl e
      | Inr h \<Rightarrow>
          (case collect (map cbor2_encode xs) of
             Inl e \<Rightarrow> Inl e
           | Inr items \<Rightarrow> Inr (h @ concat items)))"
| "cbor2_encode (PDict kvs) =
     (case encode_length 0xA0 (length kvs) of
        Inl e \<Rightarrow> Inl e
      | Inr h \<Rightarrow>
          (case collect (map (\<lambda>kv. case cbor2_encode (fst kv) of
                                       Inl e \<Rightarrow> Inl e
                                     | Inr k \<Rightarrow>
                                         (case cbor2_encode (snd kv) of
                                            Inl e \<Rightarrow> Inl e
                                          | Inr v \<Rightarrow> Inr (k @ v))) kvs) of
             Inl e \<Rightarrow> Inl e
           | Inr items \<Rightarrow> Inr (h @ concat items)))"
| "cbor2_encode (PStr encoded) =
     (case encode_length 0x60 (length encoded) of
        Inl e \<Rightarrow> Inl e
      | Inr h \<Rightarrow> Inr (h @ encoded))"
| "cbor2_encode (PByteArray bs) =
     (case encode_length 0x40 (length bs) of Inl e \<Rightarrow> Inl e | Inr h \<Rightarrow> Inr (h @ bs))"
| "cbor2_encode PUndefined = Inr [0xF7]"
| "cbor2_encode (PSimple n) =
     (if n < 20 then Inr [word_of_nat (0xE0 OR n)] else Inr [0xF8, word_of_nat n])"
| "cbor2_encode (PTag n v) =
     (case encode_length 0xC0 n of
        Inl e \<Rightarrow> Inl e
      | Inr h \<Rightarrow> (case cbor2_encode v of Inl e \<Rightarrow> Inl e | Inr b \<Rightarrow> Inr (h @ b)))"
| "cbor2_encode PBreak = Inl (CBORLayerError CannotSerialize)"
| "cbor2_encode (PObject c) = Inl (CBORLayerError NotModelled)"

text \<open>An encoder writes into the stream it was built on: the bytes are appended.\<close>

definition CBOREncoder_encode :: "bytes \<Rightarrow> pyval \<Rightarrow> py_error + bytes" where
  "CBOREncoder_encode fp obj =
     (case cbor2_encode obj of Inl e \<Rightarrow> Inl e | Inr b \<Rightarrow> Inr (fp @ b))"

subsection \<open>The CBOR library: decoding\<close>

text \<open>
  \<^verbatim>\<open>cbor2.loads\<close> decodes the first item of the stream and ignores what follows it. Every
  exception inside the decoder reaches the caller as a \<^verbatim>\<open>CBORDecodeError\<close>.
\<close>

definition stream_read :: "nat \<Rightarrow> bytes \<Rightarrow> py_error + (bytes \<times> bytes)" where
  "stream_read amount fp =
     (if length fp < amount then Inl (CBORLayerError PrematureEnd)
      else Inr (take amount fp, drop amount fp))"

definition read_uint :: "nat \<Rightarrow> bytes \<Rightarrow> py_error + (nat \<times> bytes)" where
  "read_uint amount fp =
     (case stream_read amount fp of
        Inl e \<Rightarrow> Inl e
      | Inr (b, fp') \<Rightarrow> Inr (be_nat b, fp'))"

definition decode_uint :: "nat \<Rightarrow> bytes \<Rightarrow> py_error + (nat \<times> bytes)" where
  "decode_uint subtype fp =
     (if subtype < 24 then Inr (subtype, fp)
      else if subtype = 24 then read_uint 1 fp
      else if subtype = 25 then read_uint 2 fp
      else if subtype = 26 then read_uint 4 fp
      else if subtype = 27 then read_uint 8 fp
      else Inl (CBORLayerError (UnknownSubtype subtype)))"

text \<open>
  The length of a string, array or map, \<^verbatim>\<open>decode_uint\<close> with \<^verbatim>\<open>allow_indefinite=True\<close>:
  subtype 31 announces an indefinite length, for which the library returns \<^verbatim>\<open>None\<close>.
\<close>

definition decode_length :: "nat \<Rightarrow> bytes \<Rightarrow> py_error + (nat option \<times> bytes)" where
  "decode_length subtype fp =
     (if subtype = 31 then Inr (None, fp)
      else (case decode_uint subtype fp of
              Inl e \<Rightarrow> Inl e
            | Inr (n, fp') \<Rightarrow> Inr (Some n, fp')))"

text \<open>
  The chunks of a string of indefinite length, up to the byte 0xFF: of the first byte of
  a chunk only the subtype is read. The first argument bounds the number of chunks;
  \<open>decode_bytestring\<close> starts it above the length of the stream, and every chunk consumes
  a byte, so the bound is not reached.
\<close>

fun read_chunks :: "nat \<Rightarrow> bytes \<Rightarrow> bytes \<Rightarrow> py_error + (bytes \<times> bytes)" where
  "read_chunks 0 fp buf = Inl (CBORLayerError NotModelled)"
| "read_chunks (Suc bound) fp buf =
     (case fp of
        [] \<Rightarrow> Inl (CBORLayerError PrematureEnd)
      | initial_byte # fp1 \<Rightarrow>
          if unat initial_byte = 255 then Inr (buf, fp1)
          else (case decode_uint (unat initial_byte mod 32) fp1 of
                  Inl e \<Rightarrow> Inl e
                | Inr (n, fp2) \<Rightarrow>
                    (case stream_read n fp2 of
                       Inl e \<Rightarrow> Inl e
                     | Inr (v, fp3) \<Rightarrow> read_chunks bound fp3 (buf @ v))))"

text \<open>
  A byte string of definite length is a \<^verbatim>\<open>bytes\<close> object, one of indefinite length the
  \<^verbatim>\<open>bytearray\<close> in which the library collects the chunks.
\<close>

definition decode_bytestring :: "nat \<Rightarrow> bytes \<Rightarrow> py_error + (pyval \<times> bytes)" where
  "decode_bytestring subtype fp =
     (case decode_length subtype fp of
        Inl e \<Rightarrow> Inl e
      | Inr (None, fp1) \<Rightarrow>
          (case read_chunks (Suc (length fp1)) fp1 [] of
             Inl e \<Rightarrow> Inl e
           | Inr (buf, fp2) \<Rightarrow> Inr (PByteArray buf, fp2))
      | Inr (Some n, fp1) \<Rightarrow>
          (case stream_read n fp1 of
             Inl e \<Rightarrow> Inl e
           | Inr (b, fp2) \<Rightarrow> Inr (PBytes b, fp2)))"

text \<open>
  A text string is the byte string decoded as UTF-8. The codec accepts the well-formed
  byte sequences: no overlong form, no surrogate, nothing above U+10FFFF.
\<close>

definition continuation :: "byte \<Rightarrow> bool" where
  "continuation b \<longleftrightarrow> 0x80 \<le> unat b \<and> unat b \<le> 0xBF"

fun utf8_valid :: "bytes \<Rightarrow> bool" where
  "utf8_valid [] = True"
| "utf8_valid (b # bs) =
     (let n = unat b in
      if n < 0x80 then utf8_valid bs
      else if 0xC2 \<le> n \<and> n \<le> 0xDF then
        1 \<le> length bs \<and> continuation (bs ! 0) \<and> utf8_valid (drop 1 bs)
      else if 0xE0 \<le> n \<and> n \<le> 0xEF then
        2 \<le> length bs
        \<and> (if n = 0xE0 then 0xA0 \<le> unat (bs ! 0) \<and> unat (bs ! 0) \<le> 0xBF
            else if n = 0xED then 0x80 \<le> unat (bs ! 0) \<and> unat (bs ! 0) \<le> 0x9F
            else continuation (bs ! 0))
        \<and> continuation (bs ! 1) \<and> utf8_valid (drop 2 bs)
      else if 0xF0 \<le> n \<and> n \<le> 0xF4 then
        3 \<le> length bs
        \<and> (if n = 0xF0 then 0x90 \<le> unat (bs ! 0) \<and> unat (bs ! 0) \<le> 0xBF
            else if n = 0xF4 then 0x80 \<le> unat (bs ! 0) \<and> unat (bs ! 0) \<le> 0x8F
            else continuation (bs ! 0))
        \<and> continuation (bs ! 1) \<and> continuation (bs ! 2) \<and> utf8_valid (drop 3 bs)
      else False)"

fun string_bytes :: "pyval \<Rightarrow> bytes" where
  "string_bytes (PBytes b) = b"
| "string_bytes (PByteArray b) = b"
| "string_bytes _ = []"

definition decode_string :: "nat \<Rightarrow> bytes \<Rightarrow> py_error + (pyval \<times> bytes)" where
  "decode_string subtype fp =
     (case decode_bytestring subtype fp of
        Inl e \<Rightarrow> Inl e
      | Inr (v, fp1) \<Rightarrow>
          if utf8_valid (string_bytes v) then Inr (PStr (string_bytes v), fp1)
          else Inl (CBORLayerError InvalidUTF8))"

definition read_float :: "nat \<Rightarrow> (bytes \<Rightarrow> 64 word) \<Rightarrow> bytes \<Rightarrow> py_error + (pyval \<times> bytes)" where
  "read_float amount unpack fp =
     (case stream_read amount fp of
        Inl e \<Rightarrow> Inl e
      | Inr (b, fp') \<Rightarrow> Inr (PFloat (unpack b), fp'))"

text \<open>
  Major type 7: the simple values, \<^verbatim>\<open>False\<close>, \<^verbatim>\<open>True\<close>, \<^verbatim>\<open>None\<close>, \<^verbatim>\<open>undefined\<close>, the three
  float widths and the break marker.
\<close>

definition decode_special :: "nat \<Rightarrow> bytes \<Rightarrow> py_error + (pyval \<times> bytes)" where
  "decode_special subtype fp =
     (if subtype < 20 then Inr (PSimple subtype, fp)
      else if subtype = 20 then Inr (PBool False, fp)
      else if subtype = 21 then Inr (PBool True, fp)
      else if subtype = 22 then Inr (PNone, fp)
      else if subtype = 23 then Inr (PUndefined, fp)
      else if subtype = 24 then
        (case read_uint 1 fp of
           Inl e \<Rightarrow> Inl e
         | Inr (n, fp') \<Rightarrow> Inr (PSimple n, fp'))
      else if subtype = 25 then read_float 2 struct_unpack_e fp
      else if subtype = 26 then read_float 4 struct_unpack_f fp
      else if subtype = 27 then read_float 8 struct_unpack_d fp
      else if subtype = 31 then Inr (PBreak, fp)
      else Inl (CBORLayerError (UnknownSubtype subtype)))"

text \<open>
  The tags for which the library has a decoder of its own: dates, big integers, decimal
  fractions and bigfloats, shared references, rationals, regular expressions, MIME
  messages, UUIDs and sets. Every other tag gives a \<^verbatim>\<open>CBORTag\<close>, but for tag 28, which
  marks a value as shareable and gives the value itself.
\<close>

definition semantic_decoders :: "nat list" where
  "semantic_decoders = [0, 1, 2, 3, 4, 5, 29, 30, 35, 36, 37, 258]"

text \<open>
  Tag 1, \<^verbatim>\<open>datetime.fromtimestamp(value, timezone.utc)\<close>: an integer, a boolean or a float
  that is a number of seconds from the year 1 to the year 9999 gives a \<^verbatim>\<open>datetime\<close>,
  every other value an exception (with a \<^verbatim>\<open>time_t\<close> of 64 bits).
\<close>

definition decode_epoch_datetime :: "pyval \<Rightarrow> py_error + pyval" where
  "decode_epoch_datetime v =
     (if (case v of
            PInt t \<Rightarrow> - 62135596800 \<le> t \<and> t < 253402300800
          | PBool b \<Rightarrow> True
          | PFloat x \<Rightarrow>
              ieee_exponent 52 11 (unat x) \<noteq> 2047
              \<and> (case ieee_magnitude 52 11 (unat x) of
                    (p, q) \<Rightarrow>
                      if ieee_sign 52 11 (unat x) = 0 then p < 253402300800 * q
                      else p \<le> 62135596800 * q)
          | _ \<Rightarrow> False)
      then Inr (PObject ''datetime.datetime'')
      else Inl (CBORLayerError InvalidTaggedValue))"

text \<open>
  Tags 2 and 3, \<^verbatim>\<open>int(hexlify(value), 16)\<close> and its negative minus one: the value is a
  byte string that is not empty.
\<close>

definition decode_positive_bignum :: "pyval \<Rightarrow> py_error + int" where
  "decode_positive_bignum v =
     (case v of
        PBytes b \<Rightarrow>
          if b = [] then Inl (CBORLayerError InvalidTaggedValue) else Inr (int (be_nat b))
      | PByteArray b \<Rightarrow>
          if b = [] then Inl (CBORLayerError InvalidTaggedValue) else Inr (int (be_nat b))
      | _ \<Rightarrow> Inl (CBORLayerError InvalidTaggedValue))"

definition decode_negative_bignum :: "pyval \<Rightarrow> py_error + int" where
  "decode_negative_bignum v =
     (case decode_positive_bignum v of Inl e \<Rightarrow> Inl e | Inr n \<Rightarrow> Inr (- n - 1))"

text \<open>The decoder of a tag of \<open>semantic_decoders\<close>, applied to the value under the tag.\<close>

definition semantic_decoder :: "nat \<Rightarrow> pyval \<Rightarrow> py_error + pyval" where
  "semantic_decoder tagnum v =
     (if tagnum = 1 then decode_epoch_datetime v
      else if tagnum = 2 then
        (case decode_positive_bignum v of Inl e \<Rightarrow> Inl e | Inr n \<Rightarrow> Inr (PInt n))
      else if tagnum = 3 then
        (case decode_negative_bignum v of Inl e \<Rightarrow> Inl e | Inr n \<Rightarrow> Inr (PInt n))
      else Inl (CBORLayerError NotModelled))"

text \<open>
  The keys of a map for which the equality of Python's keys is the equality of their
  values here. A float or a boolean may equal an integer, and what the library does with
  a key that cannot be hashed is not modelled.
\<close>

fun modelled_key :: "pyval \<Rightarrow> bool" where
  "modelled_key (PInt _) = True"
| "modelled_key (PBytes _) = True"
| "modelled_key PNone = True"
| "modelled_key (PStr _) = True"
| "modelled_key PUndefined = True"
| "modelled_key PBreak = True"
| "modelled_key _ = False"

text \<open>
  The first argument bounds the nesting depth, the second argument of the loops the
  number of items left, which for an indefinite length is a bound. \<open>cbor2_loads\<close> and the
  loops of indefinite length start these bounds above the length of the stream, and every
  item and every level of nesting consumes a byte, so the bounds are not reached.
\<close>

function (sequential) decode_item :: "nat \<Rightarrow> bytes \<Rightarrow> py_error + (pyval \<times> bytes)"
  and decode_array_items ::
    "nat \<Rightarrow> nat \<Rightarrow> bytes \<Rightarrow> pyval list \<Rightarrow> py_error + (pyval list \<times> bytes)"
  and decode_map_items ::
    "nat \<Rightarrow> nat \<Rightarrow> bytes \<Rightarrow> (pyval \<times> pyval) list
       \<Rightarrow> py_error + ((pyval \<times> pyval) list \<times> bytes)"
  and decode_array_indefinite ::
    "nat \<Rightarrow> nat \<Rightarrow> bytes \<Rightarrow> pyval list \<Rightarrow> py_error + (pyval list \<times> bytes)"
  and decode_map_indefinite ::
    "nat \<Rightarrow> nat \<Rightarrow> bytes \<Rightarrow> (pyval \<times> pyval) list
       \<Rightarrow> py_error + ((pyval \<times> pyval) list \<times> bytes)"
where
  "decode_item 0 fp = Inl (CBORLayerError NotModelled)"
| "decode_item (Suc depth) fp =
     (case fp of
        [] \<Rightarrow> Inl (CBORLayerError PrematureEnd)
      | initial_byte # fp1 \<Rightarrow>
          (let major_type = unat initial_byte div 32;
               subtype = unat initial_byte mod 32
           in if major_type = 0 then
                (case decode_uint subtype fp1 of
                   Inl e \<Rightarrow> Inl e
                 | Inr (n, fp2) \<Rightarrow> Inr (PInt (int n), fp2))
              else if major_type = 1 then
                (case decode_uint subtype fp1 of
                   Inl e \<Rightarrow> Inl e
                 | Inr (n, fp2) \<Rightarrow> Inr (PInt (- int n - 1), fp2))
              else if major_type = 2 then decode_bytestring subtype fp1
              else if major_type = 3 then decode_string subtype fp1
              else if major_type = 4 then
                (case decode_length subtype fp1 of
                   Inl e \<Rightarrow> Inl e
                 | Inr (None, fp2) \<Rightarrow>
                     (case decode_array_indefinite depth (Suc (length fp2)) fp2 [] of
                        Inl e \<Rightarrow> Inl e
                      | Inr (items, fp3) \<Rightarrow> Inr (PList items, fp3))
                 | Inr (Some n, fp2) \<Rightarrow>
                     (case decode_array_items depth n fp2 [] of
                        Inl e \<Rightarrow> Inl e
                      | Inr (items, fp3) \<Rightarrow> Inr (PList items, fp3)))
              else if major_type = 5 then
                (case decode_length subtype fp1 of
                   Inl e \<Rightarrow> Inl e
                 | Inr (None, fp2) \<Rightarrow>
                     (case decode_map_indefinite depth (Suc (length fp2)) fp2 [] of
                        Inl e \<Rightarrow> Inl e
                      | Inr (dictionary, fp3) \<Rightarrow> Inr (PDict dictionary, fp3))
                 | Inr (Some n, fp2) \<Rightarrow>
                     (case decode_map_items depth n fp2 [] of
                        Inl e \<Rightarrow> Inl e
                      | Inr (dictionary, fp3) \<Rightarrow> Inr (PDict dictionary, fp3)))
              else if major_type = 6 then
                (case decode_uint subtype fp1 of
                   Inl e \<Rightarrow> Inl e
                 | Inr (tagnum, fp2) \<Rightarrow>
                     if tagnum = 28 then decode_item depth fp2
                     else (case decode_item depth fp2 of
                             Inl e \<Rightarrow> Inl e
                           | Inr (v, fp3) \<Rightarrow>
                               if tagnum \<in> set semantic_decoders then
                                 (case semantic_decoder tagnum v of
                                    Inl e \<Rightarrow> Inl e
                                  | Inr r \<Rightarrow> Inr (r, fp3))
                               else Inr (PTag tagnum v, fp3)))
              else decode_special subtype fp1))"
| "decode_array_items depth 0 fp items = Inr (items, fp)"
| "decode_array_items depth (Suc n) fp items =
     (case decode_item depth fp of
        Inl e \<Rightarrow> Inl e
      | Inr (item, fp1) \<Rightarrow> decode_array_items depth n fp1 (items @ [item]))"
| "decode_map_items depth 0 fp dictionary = Inr (dictionary, fp)"
| "decode_map_items depth (Suc n) fp dictionary =
     (case decode_item depth fp of
        Inl e \<Rightarrow> Inl e
      | Inr (key, fp1) \<Rightarrow>
          (case decode_item depth fp1 of
             Inl e \<Rightarrow> Inl e
           | Inr (v, fp2) \<Rightarrow>
               if \<not> modelled_key key then Inl (CBORLayerError NotModelled)
               else decode_map_items depth n fp2 (dict_set dictionary key v)))"
| "decode_array_indefinite depth 0 fp items = Inl (CBORLayerError NotModelled)"
| "decode_array_indefinite depth (Suc bound) fp items =
     (case decode_item depth fp of
        Inl e \<Rightarrow> Inl e
      | Inr (v, fp1) \<Rightarrow>
          if v = PBreak then Inr (items, fp1)
          else decode_array_indefinite depth bound fp1 (items @ [v]))"
| "decode_map_indefinite depth 0 fp dictionary = Inl (CBORLayerError NotModelled)"
| "decode_map_indefinite depth (Suc bound) fp dictionary =
     (case decode_item depth fp of
        Inl e \<Rightarrow> Inl e
      | Inr (key, fp1) \<Rightarrow>
          if key = PBreak then Inr (dictionary, fp1)
          else (case decode_item depth fp1 of
                  Inl e \<Rightarrow> Inl e
                | Inr (v, fp2) \<Rightarrow>
                    if \<not> modelled_key key then Inl (CBORLayerError NotModelled)
                    else decode_map_indefinite depth bound fp2 (dict_set dictionary key v)))"
  by pat_completeness auto

termination
  by (relation "measures
        [\<lambda>x. case x of
              Inl (Inl (depth, fp)) \<Rightarrow> 2 * depth
            | Inl (Inr (depth, n, fp, items)) \<Rightarrow> 2 * depth + 1
            | Inr (Inl (depth, n, fp, dictionary)) \<Rightarrow> 2 * depth + 1
            | Inr (Inr (Inl (depth, n, fp, items))) \<Rightarrow> 2 * depth + 1
            | Inr (Inr (Inr (depth, n, fp, dictionary))) \<Rightarrow> 2 * depth + 1,
         \<lambda>x. case x of
              Inl (Inl (depth, fp)) \<Rightarrow> 0
            | Inl (Inr (depth, n, fp, items)) \<Rightarrow> n
            | Inr (Inl (depth, n, fp, dictionary)) \<Rightarrow> n
            | Inr (Inr (Inl (depth, n, fp, items))) \<Rightarrow> n
            | Inr (Inr (Inr (depth, n, fp, dictionary))) \<Rightarrow> n]")
    simp_all

definition cbor2_loads :: "bytes \<Rightarrow> py_error + pyval" where
  "cbor2_loads payload =
     (case decode_item (Suc (length payload)) payload of
        Inl e \<Rightarrow> Inl e
      | Inr (v, _) \<Rightarrow> Inr v)"

subsection \<open>Messages\<close>

text \<open>
  The two named tuples. The field \<^verbatim>\<open>function\<close> is written \<open>function'\<close>, the plain word
  being reserved.
\<close>

datatype Message =
  Message (function': ThingsetFunction) (payload: "(pyval \<times> pyval) list")

datatype MessageWithDomain =
  MessageWithDomain (function': ThingsetFunction) (payload: "(string \<times> pyval) list")

subsection \<open>Decoding a message\<close>

text \<open>
  The loop of \<^verbatim>\<open>_parse_thingset_msg_payload\<close> over the decoded map: a float is rounded when
  a precision is given, and the entry is stored under its key.
\<close>

fun parse_payload_items ::
  "int option \<Rightarrow> (pyval \<times> pyval) list \<Rightarrow> (pyval \<times> pyval) list
     \<Rightarrow> py_error + (pyval \<times> pyval) list"
where
  "parse_payload_items floats_precision [] payload' = Inr payload'"
| "parse_payload_items floats_precision ((data_object_id, v) # more) payload' =
     (case (case (floats_precision, v) of
              (Some ndigits, PFloat x) \<Rightarrow>
                (case py_round x ndigits of Inl e \<Rightarrow> Inl e | Inr r \<Rightarrow> Inr (PFloat r))
            | _ \<Rightarrow> Inr v) of
        Inl e \<Rightarrow> Inl e
      | Inr v' \<Rightarrow>
          parse_payload_items floats_precision more (dict_set payload' data_object_id v'))"

text \<open>
  \<^verbatim>\<open>_parse_thingset_msg_payload\<close>, first with the library's \<^verbatim>\<open>loads\<close> as a parameter, then
  with the model of \<^verbatim>\<open>cbor2.loads\<close> given above.
\<close>

definition parse_thingset_msg_payload_with ::
  "(bytes \<Rightarrow> py_error + pyval) \<Rightarrow> bytes \<Rightarrow> int option
     \<Rightarrow> py_error + (pyval \<times> pyval) list"
where
  "parse_thingset_msg_payload_with loads msg floats_precision =
     (let cbor_msg = drop 1 msg in
      case loads cbor_msg of
        Inl e \<Rightarrow> Inl e
      | Inr raw_payload \<Rightarrow>
          (case raw_payload of
             PDict items \<Rightarrow> parse_payload_items floats_precision items []
           | _ \<Rightarrow>
               Inl (ParsingError (''ThingSet payload should be a dict, got ''
                      @ type_repr raw_payload @ '' instead''))))"

definition parse_thingset_msg_payload ::
  "bytes \<Rightarrow> int option \<Rightarrow> py_error + (pyval \<times> pyval) list"
where
  "parse_thingset_msg_payload msg floats_precision =
     parse_thingset_msg_payload_with cbor2_loads msg floats_precision"

definition decode_thingset_message :: "bytes \<Rightarrow> int option \<Rightarrow> py_error + Message" where
  "decode_thingset_message msg floats_precision =
     (case parse_thingset_msg_function msg of
        Inl e \<Rightarrow> Inl e
      | Inr f \<Rightarrow>
          (case parse_thingset_msg_payload msg floats_precision of
             Inl e \<Rightarrow> Inl e
           | Inr p \<Rightarrow> Inr (Message f p)))"

text \<open>
  The dictionary comprehension of \<^verbatim>\<open>decode_thingset_message_with_domain\<close>: the entries of
  the mapping in order, those whose raw key is in the payload stored under the domain key.
\<close>

fun domain_payload_items ::
  "(pyval \<times> pyval) list \<Rightarrow> (int \<times> string) list \<Rightarrow> (string \<times> pyval) list
     \<Rightarrow> (string \<times> pyval) list"
where
  "domain_payload_items raw_payload [] domain_payload = domain_payload"
| "domain_payload_items raw_payload ((raw_key, domain_key) # more) domain_payload =
     (case map_of raw_payload (PInt raw_key) of
        Some v \<Rightarrow>
          domain_payload_items raw_payload more (dict_set domain_payload domain_key v)
      | None \<Rightarrow> domain_payload_items raw_payload more domain_payload)"

definition decode_thingset_message_with_domain ::
  "bytes \<Rightarrow> (int \<times> string) list \<Rightarrow> int option \<Rightarrow> py_error + MessageWithDomain"
where
  "decode_thingset_message_with_domain msg payload_key_mapping floats_precision =
     (case parse_thingset_msg_function msg of
        Inl e \<Rightarrow> Inl e
      | Inr f \<Rightarrow>
          (case parse_thingset_msg_payload msg floats_precision of
             Inl e \<Rightarrow> Inl e
           | Inr raw_payload \<Rightarrow>
               Inr (MessageWithDomain f
                      (domain_payload_items raw_payload payload_key_mapping []))))"

subsection \<open>Encoding a message\<close>

text \<open>\<^verbatim>\<open>struct.pack(">Bf", 0xFA, value)\<close>, written to the target stream.\<close>

definition encode_float_using_float32 :: "bytes \<Rightarrow> 64 word \<Rightarrow> py_error + bytes" where
  "encode_float_using_float32 target v =
     (case struct_pack_f v of
        Inl e \<Rightarrow> Inl e
      | Inr b \<Rightarrow> Inr (target @ 0xFA # b))"

text \<open>The loop of \<^verbatim>\<open>encode_thingset_message\<close> over the entries of the payload.\<close>

fun encode_payload_items :: "bytes \<Rightarrow> (pyval \<times> pyval) list \<Rightarrow> py_error + bytes" where
  "encode_payload_items result [] = Inr result"
| "encode_payload_items result ((key, v) # more) =
     (case CBOREncoder_encode result key of
        Inl e \<Rightarrow> Inl e
      | Inr result1 \<Rightarrow>
          (case (case v of
                   PFloat x \<Rightarrow> encode_float_using_float32 result1 x
                 | _ \<Rightarrow> CBOREncoder_encode result1 v) of
             Inl e \<Rightarrow> Inl e
           | Inr result2 \<Rightarrow> encode_payload_items result2 more))"

definition encode_thingset_message :: "Message \<Rightarrow> py_error + bytes" where
  "encode_thingset_message msg =
     (let result = be_bytes 1 (function_value (Message.function' msg)) in
      case encode_length 0xA0 (length (Message.payload msg)) of
        Inl e \<Rightarrow> Inl e
      | Inr marker \<Rightarrow> encode_payload_items (result @ marker) (Message.payload msg))"

text \<open>The two comprehensions of \<^verbatim>\<open>encode_thingset_message_with_domain\<close>.\<close>

fun flip_mapping_items :: "(int \<times> string) list \<Rightarrow> (string \<times> int) list \<Rightarrow> (string \<times> int) list" where
  "flip_mapping_items [] flipped = flipped"
| "flip_mapping_items ((key, v) # more) flipped =
     flip_mapping_items more (dict_set flipped v key)"

fun raw_payload_items ::
  "(string \<times> int) list \<Rightarrow> (string \<times> pyval) list \<Rightarrow> (pyval \<times> pyval) list
     \<Rightarrow> py_error + (pyval \<times> pyval) list"
where
  "raw_payload_items flipped [] payload_raw = Inr payload_raw"
| "raw_payload_items flipped ((key, v) # more) payload_raw =
     (case map_of flipped key of
        None \<Rightarrow> Inl (KeyError key)
      | Some raw_key \<Rightarrow>
          raw_payload_items flipped more (dict_set payload_raw (PInt raw_key) v))"

definition encode_thingset_message_with_domain ::
  "MessageWithDomain \<Rightarrow> (int \<times> string) list \<Rightarrow> py_error + bytes"
where
  "encode_thingset_message_with_domain msg payload_key_mapping =
     (let flipped_domain_mapping = flip_mapping_items payload_key_mapping [] in
      case raw_payload_items flipped_domain_mapping (MessageWithDomain.payload msg) [] of
        Inl e \<Rightarrow> Inl e
      | Inr payload_raw \<Rightarrow>
          encode_thingset_message (Message (MessageWithDomain.function' msg) payload_raw))"

subsection \<open>Payloads of scalar values\<close>

text \<open>
  A float is exactly representable in single precision when it is a number or an infinity
  and converting it to single precision and back gives the same float. A NaN is left
  out: it is never equal to the float decoded for it.
\<close>

definition float32_representable :: "64 word \<Rightarrow> bool" where
  "float32_representable x \<longleftrightarrow>
     \<not> ieee_isnan 52 11 (unat x)
     \<and> ieee_cast 23 8 52 11 (ieee_cast 52 11 23 8 (unat x)) = unat x"

text \<open>The integers that are CBOR items of major type 0 or 1.\<close>

definition cbor_integer :: "int \<Rightarrow> bool" where
  "cbor_integer v \<longleftrightarrow> - 18446744073709551616 \<le> v \<and> v < 18446744073709551616"

text \<open>
  A payload of type \<^verbatim>\<open>MessagePayload\<close>, \<^verbatim>\<open>Dict[int, Any]\<close>, with scalar values: the keys
  are integers, the values integers, floats, booleans, \<^verbatim>\<open>None\<close> or byte strings, inside
  what the CBOR items modelled here can hold.
\<close>

fun scalar_value :: "pyval \<Rightarrow> bool" where
  "scalar_value (PInt v) = cbor_integer v"
| "scalar_value (PFloat x) = float32_representable x"
| "scalar_value (PBool b) = True"
| "scalar_value PNone = True"
| "scalar_value (PBytes bs) = (length bs < 18446744073709551616)"
| "scalar_value (PList xs) = False"
| "scalar_value (PDict kvs) = False"
| "scalar_value (PStr encoded) = False"
| "scalar_value (PByteArray bs) = False"
| "scalar_value PUndefined = False"
| "scalar_value (PSimple n) = False"
| "scalar_value (PTag n v) = False"
| "scalar_value PBreak = False"
| "scalar_value (PObject c) = False"

fun integer_key :: "pyval \<Rightarrow> bool" where
  "integer_key (PInt v) = cbor_integer v"
| "integer_key _ = False"

subsection \<open>The test vector\<close>

text \<open>The message and the payload of \<^verbatim>\<open>tests/test_thingset.py\<close>.\<close>

definition THINGSET_SIMPLE_MESSAGE :: bytes where
  "THINGSET_SIMPLE_MESSAGE =
     [0x1F, 0xA5, 0x01, 0x1A, 0x5B, 0xC0, 0x63, 0xD8, 0x07, 0xFA, 0x42, 0xF6, 0x00, 0x00,
      0x08, 0xFA, 0x41, 0x73, 0x33, 0x33, 0x09, 0x18, 0x52, 0x18, 0x4E, 0x19, 0x03, 0x56]"

definition THINGSET_TEST_MSG_PAYLOAD_RAW :: "(pyval \<times> pyval) list" where
  "THINGSET_TEST_MSG_PAYLOAD_RAW =
     [(PInt 0x01, PInt 1539335128), (PInt 0x07, PFloat (float_of_decimal 1230 1)),
      (PInt 0x08, PFloat (float_of_decimal 152 1)), (PInt 0x09, PInt 82),
      (PInt 0x4E, PInt 854)]"

section \<open>Evaluation\<close>

text \<open>Equations that compute the recursive definitions on numerals.\<close>

lemma bit_length_0 [simp]: "bit_length 0 = 0"
  by (simp add: bit_length.simps)

lemma bit_length_Suc0 [simp]: "bit_length (Suc 0) = Suc 0"
  by (subst bit_length.simps) simp

lemma bit_length_1 [simp]: "bit_length 1 = 1"
  using bit_length_Suc0 by simp

lemma bit_length_Bit0 [simp]:
  "bit_length (numeral (Num.Bit0 k)) = Suc (bit_length (numeral k))"
  by (subst bit_length.simps) simp

lemma bit_length_Bit1 [simp]:
  "bit_length (numeral (Num.Bit1 k)) = Suc (bit_length (numeral k))"
  by (subst bit_length.simps) simp

lemmas ieee_defs = ieee_round_def floor_log2_def round_scaled_def round_half_even_def
  quantum_min_def inf_pattern_def ieee_sign_def ieee_exponent_def ieee_fraction_def
  ieee_isnan_def ieee_isinf_def ieee_magnitude_def Let_def

lemma decode_array_items_pos:
  "0 < n \<Longrightarrow> decode_array_items depth n fp items =
     (case decode_item depth fp of
        Inl e \<Rightarrow> Inl e
      | Inr (item, fp1) \<Rightarrow> decode_array_items depth (n - 1) fp1 (items @ [item]))"
  by (cases n) (auto split: sum.splits prod.splits)

lemma decode_map_items_pos:
  "0 < n \<Longrightarrow> decode_map_items depth n fp dictionary =
     (case decode_item depth fp of
        Inl e \<Rightarrow> Inl e
      | Inr (key, fp1) \<Rightarrow>
          (case decode_item depth fp1 of
             Inl e \<Rightarrow> Inl e
           | Inr (v, fp2) \<Rightarrow>
               if \<not> modelled_key key then Inl (CBORLayerError NotModelled)
               else decode_map_items depth (n - 1) fp2 (dict_set dictionary key v)))"
  by (cases n) (auto split: sum.splits prod.splits)

lemmas decode_defs = cbor2_loads_def stream_read_def read_uint_def decode_uint_def
  decode_length_def decode_bytestring_def decode_string_def read_float_def
  decode_special_def be_nat_def decode_array_items_pos decode_map_items_pos

section \<open>Failures of the CBOR decoder\<close>

lemma stream_read_error: "stream_read n fp = Inl e \<Longrightarrow> \<exists>c. e = CBORLayerError c"
  by (auto simp: stream_read_def split: if_splits)

lemma read_uint_error: "read_uint n fp = Inl e \<Longrightarrow> \<exists>c. e = CBORLayerError c"
  by (auto simp: read_uint_def split: sum.splits dest: stream_read_error)

lemma decode_uint_error: "decode_uint s fp = Inl e \<Longrightarrow> \<exists>c. e = CBORLayerError c"
  by (auto simp: decode_uint_def split: if_splits dest: read_uint_error)

lemma decode_length_error: "decode_length s fp = Inl e \<Longrightarrow> \<exists>c. e = CBORLayerError c"
  by (auto simp: decode_length_def split: if_splits sum.splits prod.splits
      dest: decode_uint_error)

lemma read_chunks_error: "read_chunks bound fp buf = Inl e \<Longrightarrow> \<exists>c. e = CBORLayerError c"
proof (induction bound arbitrary: fp buf)
  case 0
  then show ?case by auto
next
  case (Suc bound)
  from Suc.prems show ?case
    by (auto split: list.splits if_splits sum.splits prod.splits
        dest: decode_uint_error stream_read_error Suc.IH)
qed

lemma decode_bytestring_error:
  "decode_bytestring s fp = Inl e \<Longrightarrow> \<exists>c. e = CBORLayerError c"
  by (auto simp: decode_bytestring_def simp del: read_chunks.simps
      split: sum.splits prod.splits option.splits
      dest: decode_length_error read_chunks_error stream_read_error)

lemma decode_string_error:
  "decode_string s fp = Inl e \<Longrightarrow> \<exists>c. e = CBORLayerError c"
  by (auto simp: decode_string_def split: sum.splits prod.splits if_splits
      dest: decode_bytestring_error)

lemma read_float_error: "read_float n u fp = Inl e \<Longrightarrow> \<exists>c. e = CBORLayerError c"
  by (auto simp: read_float_def split: sum.splits dest: stream_read_error)

lemma decode_special_error: "decode_special s fp = Inl e \<Longrightarrow> \<exists>c. e = CBORLayerError c"
  by (auto simp: decode_special_def split: if_splits sum.splits prod.splits
      dest: read_float_error read_uint_error)

lemma semantic_decoder_error:
  "semantic_decoder t v = Inl e \<Longrightarrow> \<exists>c. e = CBORLayerError c"
  by (auto simp: semantic_decoder_def decode_epoch_datetime_def decode_positive_bignum_def
      decode_negative_bignum_def split: if_splits sum.splits pyval.splits)

lemma decode_array_items_error:
  assumes "\<And>fp e. decode_item d fp = Inl e \<Longrightarrow> \<exists>c. e = CBORLayerError c"
  shows "decode_array_items d n fp items = Inl e \<Longrightarrow> \<exists>c. e = CBORLayerError c"
proof (induction n arbitrary: fp items)
  case 0
  then show ?case by auto
next
  case (Suc n)
  from Suc.prems show ?case
    by (auto split: sum.splits prod.splits dest: assms Suc.IH)
qed

lemma decode_map_items_error:
  assumes "\<And>fp e. decode_item d fp = Inl e \<Longrightarrow> \<exists>c. e = CBORLayerError c"
  shows "decode_map_items d n fp dict = Inl e \<Longrightarrow> \<exists>c. e = CBORLayerError c"
proof (induction n arbitrary: fp dict)
  case 0
  then show ?case by auto
next
  case (Suc n)
  from Suc.prems show ?case
    by (auto split: sum.splits prod.splits if_splits dest: assms Suc.IH)
qed

lemma decode_array_indefinite_error:
  assumes "\<And>fp e. decode_item d fp = Inl e \<Longrightarrow> \<exists>c. e = CBORLayerError c"
  shows "decode_array_indefinite d n fp items = Inl e \<Longrightarrow> \<exists>c. e = CBORLayerError c"
proof (induction n arbitrary: fp items)
  case 0
  then show ?case by auto
next
  case (Suc n)
  from Suc.prems show ?case
    by (auto split: sum.splits prod.splits if_splits dest: assms Suc.IH)
qed

lemma decode_map_indefinite_error:
  assumes "\<And>fp e. decode_item d fp = Inl e \<Longrightarrow> \<exists>c. e = CBORLayerError c"
  shows "decode_map_indefinite d n fp dict = Inl e \<Longrightarrow> \<exists>c. e = CBORLayerError c"
proof (induction n arbitrary: fp dict)
  case 0
  then show ?case by auto
next
  case (Suc n)
  from Suc.prems show ?case
    by (auto split: sum.splits prod.splits if_splits dest: assms Suc.IH)
qed

lemma decode_item_error:
  "decode_item d fp = Inl e \<Longrightarrow> \<exists>c. e = CBORLayerError c"
proof (induction d arbitrary: fp e)
  case 0
  then show ?case by auto
next
  case (Suc d)
  have ih: "\<exists>c. e = CBORLayerError c" if "decode_item d fp = Inl e" for fp e
    using that by (rule Suc.IH)
  have l1: "\<exists>c. e = CBORLayerError c" if "decode_array_items d n fp items = Inl e"
    for n fp items e
    using ih that by (rule decode_array_items_error)
  have l2: "\<exists>c. e = CBORLayerError c" if "decode_map_items d n fp dict = Inl e"
    for n fp dict e
    using ih that by (rule decode_map_items_error)
  have l3: "\<exists>c. e = CBORLayerError c" if "decode_array_indefinite d n fp items = Inl e"
    for n fp items e
    using ih that by (rule decode_array_indefinite_error)
  have l4: "\<exists>c. e = CBORLayerError c" if "decode_map_indefinite d n fp dict = Inl e"
    for n fp dict e
    using ih that by (rule decode_map_indefinite_error)
  show ?case
  proof (cases fp)
    case Nil
    with Suc.prems show ?thesis by auto
  next
    case (Cons b fp1)
    with Suc.prems show ?thesis
      by (auto simp: Let_def
          simp del: decode_array_items.simps decode_map_items.simps
            decode_array_indefinite.simps decode_map_indefinite.simps
          split: if_splits sum.splits prod.splits option.splits
          dest: decode_uint_error decode_length_error decode_bytestring_error
            decode_string_error decode_special_error semantic_decoder_error
            ih l1 l2 l3 l4)
  qed
qed

lemma cbor2_loads_error: "cbor2_loads fp = Inl e \<Longrightarrow> \<exists>c. e = CBORLayerError c"
  by (auto simp: cbor2_loads_def simp del: decode_item.simps split: sum.splits
      dest: decode_item_error)

lemma py_round_error: "py_round x n = Inl e \<Longrightarrow> e = OverflowError"
  by (auto simp: py_round_def Let_def split: if_splits prod.splits)

lemma parse_payload_items_error:
  "parse_payload_items prec items acc = Inl e \<Longrightarrow> e = OverflowError"
proof (induction items arbitrary: acc)
  case Nil
  then show ?case by simp
next
  case (Cons kv items)
  obtain k v where kv: "kv = (k, v)" by (cases kv)
  from Cons.prems Cons.IH show ?case
    unfolding kv
    by (auto split: sum.splits option.splits pyval.splits dest: py_round_error)
qed

lemma parse_payload_items_None:
  "\<exists>p. parse_payload_items None items acc = Inr p"
  by (induction items arbitrary: acc) auto

lemma parse_function_nonempty:
  "msg \<noteq> [] \<Longrightarrow> parse_thingset_msg_function msg = Inl e \<Longrightarrow> \<exists>s. e = ParsingError s"
  by (cases msg) (auto simp: parse_thingset_msg_function_def Let_def split: option.splits)

lemma parse_payload_error:
  "parse_thingset_msg_payload msg prec = Inl e \<Longrightarrow>
     (\<exists>s. e = ParsingError s) \<or> (\<exists>c. e = CBORLayerError c) \<or> e = OverflowError"
  by (auto simp: parse_thingset_msg_payload_def parse_thingset_msg_payload_with_def Let_def split: sum.splits pyval.splits
      dest: cbor2_loads_error parse_payload_items_error)

lemma parse_payload_error_None:
  "parse_thingset_msg_payload msg None = Inl e \<Longrightarrow>
     (\<exists>s. e = ParsingError s) \<or> (\<exists>c. e = CBORLayerError c)"
  using parse_payload_items_None
  by (auto simp: parse_thingset_msg_payload_def parse_thingset_msg_payload_with_def Let_def split: sum.splits pyval.splits
      dest: cbor2_loads_error) (metis Inl_Inr_False)

section \<open>The function classifier\<close>

lemma match_function_members:
  "match_function n ThingsetFunction_members =
     (if n = 1 then Some READ else if n = 2 then Some WRITE else if n = 3 then Some LIST
      else if n = 4 then Some GET_DATA_OBJECT_NAME
      else if n = 5 then Some PUBLICATION_REQUEST
      else if n = 6 then Some AUTHENTICATION else if n = 7 then Some PRELIMINARY
      else if n = 31 then Some PUBLICATION_MESSAGE else None)"
  by (simp add: ThingsetFunction_members_def)

lemma function_value_cases:
  "function_value f = n \<Longrightarrow> n \<in> {1, 2, 3, 4, 5, 6, 7, 31}"
  by (cases f) auto

lemma str_nat_153: "str_nat 153 = ''153''"
  by code_simp

text \<open>
  Claim C5. Classifying the first byte of a message returns the enumeration member whose
  code equals the byte, for each of the eight codes 0x01..0x07 and 0x1F; for every other
  byte it raises a ParsingError whose text names the byte in decimal. Byte 0x99 raises
  "Thingset function '153' is not implemented".
\<close>

theorem classify_function_byte:
  "(function_value f = unat b \<longrightarrow> parse_thingset_msg_function (b # rest) = Inr f)
   \<and> (unat b \<notin> {0x01, 0x02, 0x03, 0x04, 0x05, 0x06, 0x07, 0x1F} \<longrightarrow>
        parse_thingset_msg_function (b # rest) =
          Inl (ParsingError (''Thingset function '' @ [CHR 0x27] @ str_nat (unat b)
                 @ [CHR 0x27] @ '' is not implemented'')))
   \<and> parse_thingset_msg_function (0x99 # rest) =
        Inl (ParsingError (''Thingset function '' @ [CHR 0x27] @ ''153'' @ [CHR 0x27]
               @ '' is not implemented''))"
proof (intro conjI impI)
  assume "function_value f = unat b"
  then show "parse_thingset_msg_function (b # rest) = Inr f"
    by (cases f) (simp_all add: parse_thingset_msg_function_def match_function_members)
next
  assume "unat b \<notin> {0x01, 0x02, 0x03, 0x04, 0x05, 0x06, 0x07, 0x1F}"
  then show "parse_thingset_msg_function (b # rest) =
      Inl (ParsingError (''Thingset function '' @ [CHR 0x27] @ str_nat (unat b)
             @ [CHR 0x27] @ '' is not implemented''))"
    by (simp add: parse_thingset_msg_function_def match_function_members)
next
  show "parse_thingset_msg_function (0x99 # rest) =
      Inl (ParsingError (''Thingset function '' @ [CHR 0x27] @ ''153'' @ [CHR 0x27]
             @ '' is not implemented''))"
    by (simp add: parse_thingset_msg_function_def match_function_members str_nat_153)
qed

theorem classify_function_byte_witness:
  "function_value PUBLICATION_MESSAGE = unat (0x1F :: byte)
   \<and> parse_thingset_msg_function [0x1F, 0xA0] = Inr PUBLICATION_MESSAGE
   \<and> unat (0x42 :: byte) \<notin> {0x01, 0x02, 0x03, 0x04, 0x05, 0x06, 0x07, 0x1F}
   \<and> parse_thingset_msg_function [0x42, 0xA0] =
        Inl (ParsingError (''Thingset function '' @ [CHR 0x27] @ str_nat 66
               @ [CHR 0x27] @ '' is not implemented''))"
  using classify_function_byte [of PUBLICATION_MESSAGE "0x1F" "[0xA0]"]
    classify_function_byte [of READ "0x42" "[0xA0]"]
  by simp

section \<open>Decoding the payload\<close>

lemma loads_int_1: "cbor2_loads (drop 1 [0x1F, 0x01]) = Inr (PInt 1)"
  by (simp add: decode_defs)

lemma loads_empty_map: "cbor2_loads (drop 1 [0x1F, 0xA0]) = Inr (PDict [])"
  by (simp add: decode_defs)

lemma loads_text_a: "cbor2_loads (drop 1 [0x1F, 0x61, 0x61]) = Inr (PStr [0x61])"
  by (simp add: decode_defs continuation_def)

lemma loads_undefined: "cbor2_loads (drop 1 [0x1F, 0xF7]) = Inr PUndefined"
  by (simp add: decode_defs)

lemma loads_list_of_map: "cbor2_loads (drop 1 [0x1F, 0x81, 0xA0]) = Inr (PList [PDict []])"
  by (simp add: decode_defs)

lemma loads_epoch_0:
  "cbor2_loads (drop 1 [0x1F, 0xC1, 0x00]) = Inr (PObject ''datetime.datetime'')"
  by (simp add: decode_defs semantic_decoders_def semantic_decoder_def
      decode_epoch_datetime_def)

lemma loads_indefinite_empty_map: "cbor2_loads (drop 1 [0x1F, 0xBF, 0xFF]) = Inr (PDict [])"
  by (simp add: decode_defs)

text \<open>
  Claim C6. Whatever the CBOR library returns for the bytes after the function byte
  (\<open>loads\<close> is any function from bytes to a value or an exception, and \<open>v\<close> any value),
  when that value is not a dictionary, decoding the payload raises a ParsingError whose
  text gives the type of the value; when it is the empty dictionary, the payload is the
  empty dictionary. In particular this holds for the model of \<^verbatim>\<open>cbor2.loads\<close>.
\<close>

theorem payload_must_be_dict:
  "(loads (drop 1 msg) = Inr v \<and> (\<forall>items. v \<noteq> PDict items) \<longrightarrow>
      parse_thingset_msg_payload_with loads msg floats_precision =
        Inl (ParsingError (''ThingSet payload should be a dict, got '' @ type_repr v
               @ '' instead'')))
   \<and> (loads (drop 1 msg) = Inr (PDict []) \<longrightarrow>
        parse_thingset_msg_payload_with loads msg floats_precision = Inr [])
   \<and> (cbor2_loads (drop 1 msg) = Inr v \<and> (\<forall>items. v \<noteq> PDict items) \<longrightarrow>
        parse_thingset_msg_payload msg floats_precision =
          Inl (ParsingError (''ThingSet payload should be a dict, got '' @ type_repr v
                 @ '' instead'')))
   \<and> (cbor2_loads (drop 1 msg) = Inr (PDict []) \<longrightarrow>
        parse_thingset_msg_payload msg floats_precision = Inr [])"
  by (cases v) (simp_all add: parse_thingset_msg_payload_def parse_thingset_msg_payload_with_def)

theorem payload_must_be_dict_witness:
  "parse_thingset_msg_payload [0x1F, 0x01] None =
     Inl (ParsingError (''ThingSet payload should be a dict, got <class ''
            @ [CHR 0x27] @ ''int'' @ [CHR 0x27] @ ''> instead''))
   \<and> parse_thingset_msg_payload [0x1F, 0x61, 0x61] None =
       Inl (ParsingError (''ThingSet payload should be a dict, got <class ''
              @ [CHR 0x27] @ ''str'' @ [CHR 0x27] @ ''> instead''))
   \<and> parse_thingset_msg_payload [0x1F, 0xF7] None =
       Inl (ParsingError (''ThingSet payload should be a dict, got <class ''
              @ [CHR 0x27] @ ''cbor2.types.UndefinedType'' @ [CHR 0x27] @ ''> instead''))
   \<and> parse_thingset_msg_payload [0x1F, 0x81, 0xA0] None =
       Inl (ParsingError (''ThingSet payload should be a dict, got <class ''
              @ [CHR 0x27] @ ''list'' @ [CHR 0x27] @ ''> instead''))
   \<and> parse_thingset_msg_payload [0x1F, 0xC1, 0x00] None =
       Inl (ParsingError (''ThingSet payload should be a dict, got <class ''
              @ [CHR 0x27] @ ''datetime.datetime'' @ [CHR 0x27] @ ''> instead''))
   \<and> parse_thingset_msg_payload_with (\<lambda>cbor_msg. Inr (PObject ''decimal.Decimal''))
         [0x1F, 0xC4, 0x82, 0x00, 0x01] None =
       Inl (ParsingError (''ThingSet payload should be a dict, got <class ''
              @ [CHR 0x27] @ ''decimal.Decimal'' @ [CHR 0x27] @ ''> instead''))
   \<and> parse_thingset_msg_payload [0x1F, 0xA0] None = Inr []
   \<and> parse_thingset_msg_payload [0x1F, 0xBF, 0xFF] None = Inr []"
  using
    payload_must_be_dict [where loads = cbor2_loads and msg = "[0x1F, 0x01]"
      and v = "PInt 1" and floats_precision = None]
    payload_must_be_dict [where loads = cbor2_loads and msg = "[0x1F, 0x61, 0x61]"
      and v = "PStr [0x61]" and floats_precision = None]
    payload_must_be_dict [where loads = cbor2_loads and msg = "[0x1F, 0xF7]"
      and v = PUndefined and floats_precision = None]
    payload_must_be_dict [where loads = cbor2_loads and msg = "[0x1F, 0x81, 0xA0]"
      and v = "PList [PDict []]" and floats_precision = None]
    payload_must_be_dict [where loads = cbor2_loads and msg = "[0x1F, 0xC1, 0x00]"
      and v = "PObject ''datetime.datetime''" and floats_precision = None]
    payload_must_be_dict [where loads = "\<lambda>cbor_msg. Inr (PObject ''decimal.Decimal'')"
      and msg = "[0x1F, 0xC4, 0x82, 0x00, 0x01]" and v = "PObject ''decimal.Decimal''"
      and floats_precision = None]
    payload_must_be_dict [where loads = cbor2_loads and msg = "[0x1F, 0xA0]"
      and v = PNone and floats_precision = None]
    payload_must_be_dict [where loads = cbor2_loads and msg = "[0x1F, 0xBF, 0xFF]"
      and v = PNone and floats_precision = None]
    loads_int_1 loads_text_a loads_undefined loads_list_of_map loads_epoch_0
    loads_empty_map loads_indefinite_empty_map
  by simp

section \<open>The empty message\<close>

text \<open>
  The message 1F A1 01 FB 7FEC7B1F3CAC7433 holds the float 1.6e308 under key 1. Rounded to
  -308 digits it is 2e308, which is beyond the largest double.
\<close>

lemma unpack_16e307:
  "struct_unpack_d [0x7F, 0xEC, 0x7B, 0x1F, 0x3C, 0xAC, 0x74, 0x33] = 0x7FEC7B1F3CAC7433"
  by (simp add: struct_unpack_d_def be_nat_def)

lemma round_16e307: "py_round 0x7FEC7B1F3CAC7433 (- 308) = Inl OverflowError"
proof -
  have "ieee_exponent 52 11 0x7FEC7B1F3CAC7433 = 2046"
    "ieee_sign 52 11 0x7FEC7B1F3CAC7433 = 0"
    "ieee_magnitude 52 11 0x7FEC7B1F3CAC7433 = (8016673440035891 * 2 ^ 971, 1)"
    "round_half_even (8016673440035891 * 2 ^ 971) (1 * 10 ^ 308) = 2"
    "inf_pattern 52 11 \<le> ieee_round 52 11 (2 * 10 ^ 308) 1"
    by (simp_all add: ieee_defs)
  then show ?thesis by (simp add: py_round_def)
qed

lemma loads_16e307:
  "cbor2_loads (drop 1 [0x1F, 0xA1, 0x01, 0xFB, 0x7F, 0xEC, 0x7B, 0x1F, 0x3C, 0xAC, 0x74, 0x33])
     = Inr (PDict [(PInt 1, PFloat 0x7FEC7B1F3CAC7433)])"
  by (simp add: decode_defs unpack_16e307)

theorem decode_failure_counterexample:
  "decode_thingset_message
     [0x1F, 0xA1, 0x01, 0xFB, 0x7F, 0xEC, 0x7B, 0x1F, 0x3C, 0xAC, 0x74, 0x33] (Some (- 308))
   = Inl OverflowError"
  using loads_16e307
  by (simp add: decode_thingset_message_def parse_thingset_msg_function_def
      match_function_members parse_thingset_msg_payload_def parse_thingset_msg_payload_with_def round_16e307)

lemma parse_payload_error_precision:
  "parse_thingset_msg_payload msg prec = Inl e \<Longrightarrow>
     (\<exists>s. e = ParsingError s) \<or> (\<exists>c. e = CBORLayerError c)
     \<or> (e = OverflowError \<and> prec \<noteq> None)"
  using parse_payload_error [of msg prec e] parse_payload_error_None [of msg e]
  by (cases prec) auto

text \<open>
  Claim C10, as amended. Decoding the empty byte string, with or without a domain mapping,
  fails with an IndexError from reading byte 0, not with a ParsingError. On a non-empty
  message reading the function byte succeeds, no decoding fails with an IndexError, and a
  failure is a ParsingError, a failure of the CBOR layer or, only when a precision is
  given, the OverflowError of \<^verbatim>\<open>round\<close>, as in the counterexample above.
\<close>

theorem decode_empty_is_index_error:
  "decode_thingset_message [] floats_precision = Inl IndexError
   \<and> decode_thingset_message_with_domain [] payload_key_mapping floats_precision
       = Inl IndexError
   \<and> (msg \<noteq> [] \<longrightarrow>
        parse_thingset_msg_function msg \<noteq> Inl IndexError
        \<and> decode_thingset_message msg floats_precision \<noteq> Inl IndexError
        \<and> decode_thingset_message_with_domain msg payload_key_mapping floats_precision
            \<noteq> Inl IndexError
        \<and> (\<forall>e. decode_thingset_message msg floats_precision = Inl e
                 \<or> decode_thingset_message_with_domain msg payload_key_mapping
                      floats_precision = Inl e
               \<longrightarrow> (\<exists>s. e = ParsingError s) \<or> (\<exists>c. e = CBORLayerError c)
                   \<or> (e = OverflowError \<and> floats_precision \<noteq> None)))"
proof (intro conjI impI allI)
  show "decode_thingset_message [] floats_precision = Inl IndexError"
    by (simp add: decode_thingset_message_def parse_thingset_msg_function_def)
  show "decode_thingset_message_with_domain [] payload_key_mapping floats_precision
      = Inl IndexError"
    by (simp add: decode_thingset_message_with_domain_def parse_thingset_msg_function_def)
next
  assume "msg \<noteq> []"
  then show f: "parse_thingset_msg_function msg \<noteq> Inl IndexError"
    by (auto dest: parse_function_nonempty)
  show "decode_thingset_message msg floats_precision \<noteq> Inl IndexError"
    using f by (auto simp: decode_thingset_message_def split: sum.splits
        dest: parse_payload_error)
  show "decode_thingset_message_with_domain msg payload_key_mapping floats_precision
      \<noteq> Inl IndexError"
    using f by (auto simp: decode_thingset_message_with_domain_def split: sum.splits
        dest: parse_payload_error)
next
  fix e
  assume ne: "msg \<noteq> []"
    and "decode_thingset_message msg floats_precision = Inl e
      \<or> decode_thingset_message_with_domain msg payload_key_mapping floats_precision = Inl e"
  then have "parse_thingset_msg_function msg = Inl e
      \<or> parse_thingset_msg_payload msg floats_precision = Inl e"
    by (auto simp: decode_thingset_message_def decode_thingset_message_with_domain_def
        split: sum.splits)
  then show "(\<exists>s. e = ParsingError s) \<or> (\<exists>c. e = CBORLayerError c)
      \<or> (e = OverflowError \<and> floats_precision \<noteq> None)"
    using parse_function_nonempty [OF ne] parse_payload_error_precision by blast
qed

theorem decode_empty_is_index_error_witness:
  "[0x1F, 0x01] \<noteq> ([] :: bytes)
   \<and> parse_thingset_msg_function [0x1F, 0x01] \<noteq> Inl IndexError
   \<and> decode_thingset_message [0x1F, 0x01] None \<noteq> Inl IndexError
   \<and> decode_thingset_message [0x1F, 0x01] None =
        Inl (ParsingError (''ThingSet payload should be a dict, got <class ''
               @ [CHR 0x27] @ ''int'' @ [CHR 0x27] @ ''> instead''))"
proof -
  have "decode_thingset_message [0x1F, 0x01] None =
      Inl (ParsingError (''ThingSet payload should be a dict, got <class ''
             @ [CHR 0x27] @ ''int'' @ [CHR 0x27] @ ''> instead''))"
    using loads_int_1
    by (simp add: decode_thingset_message_def parse_thingset_msg_function_def
        match_function_members parse_thingset_msg_payload_def parse_thingset_msg_payload_with_def)
  then show ?thesis
    using decode_empty_is_index_error [of None "[]" "[0x1F, 0x01]"] by simp
qed

section \<open>Domain translation\<close>

lemma map_of_dict_set: "map_of (dict_set d k v) = (map_of d)(k \<mapsto> v)"
  by (induction d) (auto simp: fun_eq_iff)

lemma dict_set_fresh: "k \<notin> fst ` set d \<Longrightarrow> dict_set d k v = d @ [(k, v)]"
  by (induction d) auto

lemma domain_payload_items_eq:
  "distinct (map snd mapping) \<Longrightarrow> snd ` set mapping \<inter> fst ` set acc = {} \<Longrightarrow>
   domain_payload_items raw mapping acc =
     acc @ List.map_filter (\<lambda>(raw_key, domain_key).
             map_option (Pair domain_key) (map_of raw (PInt raw_key))) mapping"
proof (induction mapping arbitrary: acc)
  case Nil
  then show ?case by (simp add: List.map_filter_simps)
next
  case (Cons kd mapping)
  obtain k d where kd: "kd = (k, d)" by (cases kd)
  show ?case
  proof (cases "map_of raw (PInt k)")
    case None
    with Cons kd show ?thesis by (auto simp: List.map_filter_simps)
  next
    case (Some v)
    from Cons.prems kd have fresh: "d \<notin> fst ` set acc" by auto
    have "snd ` set mapping \<inter> fst ` set (acc @ [(d, v)]) = {}"
      using Cons.prems kd by (auto simp: image_iff)
    with Cons.IH [of "acc @ [(d, v)]"] Cons.prems kd Some fresh show ?thesis
      by (simp add: List.map_filter_simps dict_set_fresh)
  qed
qed

lemma set_map_filter_domain:
  "set (List.map_filter (\<lambda>(raw_key, domain_key).
          map_option (Pair domain_key) (map_of raw (PInt raw_key))) mapping)
   = {(d, v). \<exists>k. (k, d) \<in> set mapping \<and> map_of raw (PInt k) = Some v}"
  by (auto simp: List.map_filter_def image_iff split: prod.splits) force+


lemma decode_with_domain_eq:
  "decode_thingset_message_with_domain msg mapping prec =
     (case decode_thingset_message msg prec of
        Inl e \<Rightarrow> Inl e
      | Inr m \<Rightarrow>
          Inr (MessageWithDomain (Message.function' m)
                 (domain_payload_items (Message.payload m) mapping [])))"
  by (simp add: decode_thingset_message_with_domain_def decode_thingset_message_def
      split: sum.splits)

text \<open>
  Claim C8. Translating a decoded payload to domain keys never fails: when the message
  decodes, decoding with a domain mapping returns a message with the same function, and a
  failure of the decoding is the only failure. For a mapping whose domain names are
  distinct, the domain payload holds exactly the entries \<open>mapping[k] \<mapsto> payload[k]\<close> for
  the keys \<open>k\<close> of the mapping that are in the payload: keys of the payload that the mapping
  lacks are left out, keys of the mapping that the payload lacks are skipped.
\<close>

theorem domain_translation_decode:
  "(decode_thingset_message msg prec = Inl e \<longrightarrow>
      decode_thingset_message_with_domain msg mapping prec = Inl e)
   \<and> (decode_thingset_message msg prec = Inr m \<longrightarrow>
        (\<exists>dp. decode_thingset_message_with_domain msg mapping prec
                 = Inr (MessageWithDomain (Message.function' m) dp)))
   \<and> (decode_thingset_message msg prec = Inr m \<and> distinct (map snd mapping) \<longrightarrow>
        (\<exists>dp. decode_thingset_message_with_domain msg mapping prec
                 = Inr (MessageWithDomain (Message.function' m) dp)
             \<and> set dp = {(d, v). \<exists>k. (k, d) \<in> set mapping
                                   \<and> map_of (Message.payload m) (PInt k) = Some v}))"
  by (simp add: decode_with_domain_eq domain_payload_items_eq set_map_filter_domain)

lemma flip_mapping_items_Some:
  "map_of (flip_mapping_items mapping acc) s = Some k \<Longrightarrow>
     (k, s) \<in> set mapping \<or> map_of acc s = Some k"
proof (induction mapping arbitrary: acc)
  case Nil
  then show ?case by simp
next
  case (Cons kd mapping)
  obtain a b where kd: "kd = (a, b)" by (cases kd)
  from Cons.prems kd have "map_of (flip_mapping_items mapping (dict_set acc b a)) s = Some k"
    by simp
  from Cons.IH [OF this] kd show ?case
    by (auto simp: map_of_dict_set split: if_splits)
qed

lemma flip_mapping_items_dom:
  "dom (map_of (flip_mapping_items mapping acc)) = dom (map_of acc) \<union> snd ` set mapping"
proof (induction mapping arbitrary: acc)
  case Nil
  then show ?case by simp
next
  case (Cons kd mapping)
  obtain a b where kd: "kd = (a, b)" by (cases kd)
  have "dom (map_of (flip_mapping_items mapping (dict_set acc b a)))
      = dom (map_of (dict_set acc b a)) \<union> snd ` set mapping"
    by (rule Cons.IH)
  then show ?case
    unfolding kd by (simp add: map_of_dict_set)
qed

lemma flipped_None:
  "s \<notin> snd ` set mapping \<Longrightarrow> map_of (flip_mapping_items mapping []) s = None"
  using flip_mapping_items_dom [of mapping "[]"] by (auto simp: dom_def)

lemma flipped_Some:
  "s \<in> snd ` set mapping \<Longrightarrow> \<exists>k. map_of (flip_mapping_items mapping []) s = Some k"
  using flip_mapping_items_dom [of mapping "[]"] by (auto simp: dom_def)

lemma flipped_in_mapping:
  "map_of (flip_mapping_items mapping []) s = Some k \<Longrightarrow> (k, s) \<in> set mapping"
  using flip_mapping_items_Some [of mapping "[]" s k] by simp

lemma raw_payload_items_KeyError:
  "\<forall>k \<in> fst ` set pre. map_of flipped k \<noteq> None \<Longrightarrow> map_of flipped key = None \<Longrightarrow>
     raw_payload_items flipped (pre @ (key, v) # post) acc = Inl (KeyError key)"
  by (induction pre arbitrary: acc) (auto split: option.splits)

lemma raw_payload_items_Inr:
  "\<forall>k \<in> fst ` set items. map_of flipped k \<noteq> None \<Longrightarrow>
   distinct (map (\<lambda>kv. the (map_of flipped (fst kv))) items) \<Longrightarrow>
   (\<lambda>kv. PInt (the (map_of flipped (fst kv)))) ` set items \<inter> fst ` set acc = {} \<Longrightarrow>
   raw_payload_items flipped items acc =
     Inr (acc @ map (\<lambda>kv. (PInt (the (map_of flipped (fst kv))), snd kv)) items)"
proof (induction items arbitrary: acc)
  case Nil
  then show ?case by simp
next
  case (Cons kv items)
  obtain key v where kv: "kv = (key, v)" by (cases kv)
  from Cons.prems kv obtain k where k: "map_of flipped key = Some k" by auto
  from Cons.prems kv k have fresh: "PInt k \<notin> fst ` set acc" by auto
  have "(\<lambda>kv. PInt (the (map_of flipped (fst kv)))) ` set items
      \<inter> fst ` set (acc @ [(PInt k, v)]) = {}"
    using Cons.prems kv k by (auto simp: image_iff)
  with Cons.IH [of "acc @ [(PInt k, v)]"] Cons.prems kv k fresh show ?case
    by (simp add: dict_set_fresh)
qed

lemma flipped_not_None:
  "s \<in> snd ` set mapping \<Longrightarrow> map_of (flip_mapping_items mapping []) s \<noteq> None"
  using flipped_Some [of s mapping] by auto

lemma flipped_the_in_mapping:
  assumes "s \<in> snd ` set mapping"
  shows "(the (map_of (flip_mapping_items mapping []) s), s) \<in> set mapping"
proof -
  from assms obtain k where k: "map_of (flip_mapping_items mapping []) s = Some k"
    using flipped_Some by blast
  then have "(k, s) \<in> set mapping" by (rule flipped_in_mapping)
  with k show ?thesis by simp
qed

lemma flipped_the_inj:
  assumes "distinct (map fst mapping)"
    and "s \<in> snd ` set mapping" and "s' \<in> snd ` set mapping"
    and "the (map_of (flip_mapping_items mapping []) s)
       = the (map_of (flip_mapping_items mapping []) s')"
  shows "s = s'"
proof -
  have "(the (map_of (flip_mapping_items mapping []) s), s) \<in> set mapping"
    using assms(2) by (rule flipped_the_in_mapping)
  moreover have "(the (map_of (flip_mapping_items mapping []) s), s') \<in> set mapping"
    using flipped_the_in_mapping [OF assms(3)] assms(4) by simp
  ultimately show ?thesis using assms(1) by (rule eq_key_imp_eq_value [rotated])
qed

lemma raw_payload_items_translated:
  assumes sub: "fst ` set items \<subseteq> snd ` set mapping"
    and dm: "distinct (map fst mapping)"
    and di: "distinct (map fst items)"
  shows "raw_payload_items (flip_mapping_items mapping []) items [] =
     Inr (map (\<lambda>kv. (PInt (the (map_of (flip_mapping_items mapping []) (fst kv))), snd kv))
            items)"
proof -
  let ?fl = "flip_mapping_items mapping []"
  let ?g = "\<lambda>kv. the (map_of ?fl (fst kv))"
  have some: "\<forall>k \<in> fst ` set items. map_of ?fl k \<noteq> None"
  proof
    fix k assume "k \<in> fst ` set items"
    with sub have "k \<in> snd ` set mapping" by blast
    then show "map_of ?fl k \<noteq> None" by (rule flipped_not_None)
  qed
  have "inj_on ?g (set items)"
  proof (rule inj_onI)
    fix x y
    assume x: "x \<in> set items" and y: "y \<in> set items" and eq: "?g x = ?g y"
    from x sub have sx: "fst x \<in> snd ` set mapping" by blast
    from y sub have sy: "fst y \<in> snd ` set mapping" by blast
    from dm sx sy eq have "fst x = fst y" by (rule flipped_the_inj)
    moreover from di have "inj_on fst (set items)" by (simp add: distinct_map)
    ultimately show "x = y" using x y by (rule_tac inj_onD)
  qed
  moreover from di have "distinct items" by (simp add: distinct_map)
  ultimately have "distinct (map ?g items)" by (simp add: distinct_map)
  with some show ?thesis
    using raw_payload_items_Inr [of items ?fl "[]"] by simp
qed


text \<open>
  Claim C9. Encoding with a domain mapping inverts the mapping and looks every domain key
  of the payload up in it. The first domain key with no entry in the inverted mapping makes
  the encoding fail with a KeyError carrying that key; nothing is dropped. When every
  domain key has an entry (the keys of the mapping and the keys of the payload being
  distinct, as those of dictionaries are), every entry is translated to an integer key the
  mapping gives for its domain key, its value unchanged, and the translated message is
  encoded.
\<close>

theorem domain_translation_encode:
  "(MessageWithDomain.payload msg = pre @ (key, v) # post
      \<and> fst ` set pre \<subseteq> snd ` set mapping \<and> key \<notin> snd ` set mapping \<longrightarrow>
      encode_thingset_message_with_domain msg mapping = Inl (KeyError key))
   \<and> (fst ` set (MessageWithDomain.payload msg) \<subseteq> snd ` set mapping
      \<and> distinct (map fst mapping) \<and> distinct (map fst (MessageWithDomain.payload msg)) \<longrightarrow>
      (\<exists>raw. encode_thingset_message_with_domain msg mapping
                = encode_thingset_message (Message (MessageWithDomain.function' msg) raw)
            \<and> list_all2 (\<lambda>(key, v) (raw_key, v').
                   v' = v \<and> (\<exists>k. raw_key = PInt k \<and> (k, key) \<in> set mapping))
                 (MessageWithDomain.payload msg) raw))"
proof (intro conjI impI)
  assume a: "MessageWithDomain.payload msg = pre @ (key, v) # post
      \<and> fst ` set pre \<subseteq> snd ` set mapping \<and> key \<notin> snd ` set mapping"
  have "\<forall>k \<in> fst ` set pre. map_of (flip_mapping_items mapping []) k \<noteq> None"
  proof
    fix k assume "k \<in> fst ` set pre"
    with a have "k \<in> snd ` set mapping" by blast
    then show "map_of (flip_mapping_items mapping []) k \<noteq> None" by (rule flipped_not_None)
  qed
  moreover from a have "map_of (flip_mapping_items mapping []) key = None"
    by (simp add: flipped_None)
  ultimately have "raw_payload_items (flip_mapping_items mapping [])
      (pre @ (key, v) # post) [] = Inl (KeyError key)"
    by (rule raw_payload_items_KeyError)
  with a show "encode_thingset_message_with_domain msg mapping = Inl (KeyError key)"
    by (simp add: encode_thingset_message_with_domain_def)
next
  let ?items = "MessageWithDomain.payload msg"
  let ?fl = "flip_mapping_items mapping []"
  let ?raw = "map (\<lambda>kv. (PInt (the (map_of ?fl (fst kv))), snd kv)) ?items"
  assume a: "fst ` set ?items \<subseteq> snd ` set mapping
      \<and> distinct (map fst mapping) \<and> distinct (map fst ?items)"
  then have r: "raw_payload_items ?fl ?items [] = Inr ?raw"
    by (simp add: raw_payload_items_translated)
  have "\<forall>kv \<in> set ?items. (the (map_of ?fl (fst kv)), fst kv) \<in> set mapping"
  proof
    fix kv assume "kv \<in> set ?items"
    with a have "fst kv \<in> snd ` set mapping" by blast
    then show "(the (map_of ?fl (fst kv)), fst kv) \<in> set mapping"
      by (rule flipped_the_in_mapping)
  qed
  then have "list_all2 (\<lambda>(key, v) (raw_key, v').
                   v' = v \<and> (\<exists>k. raw_key = PInt k \<and> (k, key) \<in> set mapping)) ?items ?raw"
    by (simp add: list_all2_map2 list_all2_same split_beta)
  with r show "\<exists>raw. encode_thingset_message_with_domain msg mapping
                = encode_thingset_message (Message (MessageWithDomain.function' msg) raw)
            \<and> list_all2 (\<lambda>(key, v) (raw_key, v').
                   v' = v \<and> (\<exists>k. raw_key = PInt k \<and> (k, key) \<in> set mapping)) ?items raw"
    by (intro exI [of _ ?raw]) (simp add: encode_thingset_message_with_domain_def)
qed


theorem domain_translation_encode_witness:
  "MessageWithDomain.payload
      (MessageWithDomain PUBLICATION_MESSAGE [(''a'', PInt 10), (''zz'', PInt 5)])
     = [(''a'', PInt 10)] @ (''zz'', PInt 5) # []
   \<and> fst ` set [(''a'', PInt 10)] \<subseteq> snd ` set [(1 :: int, ''a'')]
   \<and> ''zz'' \<notin> snd ` set [(1 :: int, ''a'')]
   \<and> encode_thingset_message_with_domain
        (MessageWithDomain PUBLICATION_MESSAGE [(''a'', PInt 10), (''zz'', PInt 5)])
        [(1, ''a'')] = Inl (KeyError ''zz'')
   \<and> distinct (map fst [(1 :: int, ''a'')])
   \<and> (\<exists>raw. encode_thingset_message_with_domain
                (MessageWithDomain PUBLICATION_MESSAGE [(''a'', PInt 10)]) [(1, ''a'')]
                = encode_thingset_message (Message PUBLICATION_MESSAGE raw)
            \<and> list_all2 (\<lambda>(key, v) (raw_key, v').
                   v' = v \<and> (\<exists>k. raw_key = PInt k \<and> (k, key) \<in> set [(1, ''a'')]))
                 [(''a'', PInt 10)] raw)"
  using domain_translation_encode
      [of "MessageWithDomain PUBLICATION_MESSAGE [(''a'', PInt 10), (''zz'', PInt 5)]"
        "[(''a'', PInt 10)]" "''zz''" "PInt 5" "[]" "[(1, ''a'')]"]
    domain_translation_encode
      [of "MessageWithDomain PUBLICATION_MESSAGE [(''a'', PInt 10)]"
        "[]" "''zz''" "PInt 5" "[]" "[(1, ''a'')]"]
  by simp

lemma decode_two_entries:
  "decode_thingset_message [0x1F, 0xA2, 0x01, 0x0A, 0x02, 0x14] None =
     Inr (Message PUBLICATION_MESSAGE [(PInt 1, PInt 10), (PInt 2, PInt 20)])"
  by (simp add: decode_thingset_message_def parse_thingset_msg_function_def
      match_function_members parse_thingset_msg_payload_def parse_thingset_msg_payload_with_def decode_defs)

theorem domain_translation_decode_witness:
  "decode_thingset_message [0x1F, 0xA2, 0x01, 0x0A, 0x02, 0x14] None =
     Inr (Message PUBLICATION_MESSAGE [(PInt 1, PInt 10), (PInt 2, PInt 20)])
   \<and> distinct (map snd [(1 :: int, ''a''), (3, ''c'')])
   \<and> (\<exists>dp. decode_thingset_message_with_domain [0x1F, 0xA2, 0x01, 0x0A, 0x02, 0x14]
               [(1, ''a''), (3, ''c'')] None = Inr (MessageWithDomain PUBLICATION_MESSAGE dp)
          \<and> set dp = {(d, v). \<exists>k. (k, d) \<in> set [(1, ''a''), (3, ''c'')]
                  \<and> map_of [(PInt 1, PInt 10), (PInt 2, PInt 20)] (PInt k) = Some v})"
  using domain_translation_decode
      [of "[0x1F, 0xA2, 0x01, 0x0A, 0x02, 0x14]" None "IndexError"
        "[(1, ''a''), (3, ''c'')]"
        "Message PUBLICATION_MESSAGE [(PInt 1, PInt 10), (PInt 2, PInt 20)]"]
    decode_two_entries
  by simp

section \<open>Bytes and floats of the test vector\<close>

lemma be_bytes_1: "be_bytes 1 n = [word_of_nat (n mod 256)]"
  by simp

lemma be_bytes_2: "be_bytes 2 n = [word_of_nat (n div 256 mod 256), word_of_nat (n mod 256)]"
proof -
  have e: "(2::nat) = Suc (Suc 0)" by simp
  show ?thesis unfolding e by simp
qed

lemma be_bytes_4:
  "be_bytes 4 n = [word_of_nat (n div 256 div 256 div 256 mod 256),
     word_of_nat (n div 256 div 256 mod 256), word_of_nat (n div 256 mod 256),
     word_of_nat (n mod 256)]"
proof -
  have e: "(4::nat) = Suc (Suc (Suc (Suc 0)))" by simp
  show ?thesis unfolding e by simp
qed

lemma or_small: "n < 24 \<Longrightarrow> (0xA0::nat) OR n = 0xA0 + n"
proof -
  assume "n < 24"
  then have "n \<in> {0,1,2,3,4,5,6,7,8,9,10,11,12,13,14,15,16,17,18,19,20,21,22,23}"
    by (simp; arith)
  then show ?thesis by auto
qed

lemma encode_payload_items_prefix:
  "encode_payload_items result items = Inr out \<Longrightarrow> \<exists>rest. out = result @ rest"
proof (induction items arbitrary: result)
  case Nil
  then show ?case by simp
next
  case (Cons kv items)
  obtain k v where kv: "kv = (k, v)" by (cases kv)
  from Cons.prems obtain r1 r2 where
    r1: "CBOREncoder_encode result k = Inr r1"
    and r2: "(case v of PFloat x \<Rightarrow> encode_float_using_float32 r1 x
               | _ \<Rightarrow> CBOREncoder_encode r1 v) = Inr r2"
    and rest: "encode_payload_items r2 items = Inr out"
    unfolding kv by (auto split: sum.splits)
  from r1 obtain a where a: "r1 = result @ a"
    by (auto simp: CBOREncoder_encode_def split: sum.splits)
  from r2 obtain b where b: "r2 = r1 @ b"
    by (cases v) (auto simp: CBOREncoder_encode_def encode_float_using_float32_def
        split: sum.splits)
  from Cons.IH [OF rest] obtain c where "out = r2 @ c" by blast
  with a b show ?case by simp
qed

lemma cast_15_2: "ieee_cast 23 8 52 11 0x41733333 = 0x402E666660000000"
proof -
  have "ieee_isinf 23 8 0x41733333 = False" "ieee_isnan 23 8 0x41733333 = False"
    "ieee_magnitude 23 8 0x41733333 = (15938355, 1048576)" "ieee_sign 23 8 0x41733333 = 0"
    "ieee_round 52 11 15938355 1048576 = 0x402E666660000000"
    "inf_pattern 52 11 = 0x7FF0000000000000"
    by (simp_all add: ieee_defs)
  then show ?thesis by (simp add: ieee_cast_def)
qed

lemma cast_123: "ieee_cast 23 8 52 11 0x42F60000 = 0x405EC00000000000"
proof -
  have "ieee_isinf 23 8 0x42F60000 = False" "ieee_isnan 23 8 0x42F60000 = False"
    "ieee_magnitude 23 8 0x42F60000 = (16121856, 131072)" "ieee_sign 23 8 0x42F60000 = 0"
    "ieee_round 52 11 16121856 131072 = 0x405EC00000000000"
    "inf_pattern 52 11 = 0x7FF0000000000000"
    by (simp_all add: ieee_defs)
  then show ?thesis by (simp add: ieee_cast_def)
qed

lemma float_15_2: "float_of_decimal 152 1 = 0x402E666666666666"
  by (simp add: float_of_decimal_def ieee_defs)

lemma float_123: "float_of_decimal 1230 1 = 0x405EC00000000000"
  by (simp add: float_of_decimal_def ieee_defs)

lemma float_15_19: "float_of_decimal 15199999809265137 15 = 0x402E666660000000"
  by (simp add: float_of_decimal_def ieee_defs)

lemma unpack_15_2: "struct_unpack_f [0x41, 0x73, 0x33, 0x33] = 0x402E666660000000"
  by (simp add: struct_unpack_f_def be_nat_def cast_15_2)

lemma unpack_123: "struct_unpack_f [0x42, 0xF6, 0x00, 0x00] = 0x405EC00000000000"
  by (simp add: struct_unpack_f_def be_nat_def cast_123)

lemma narrow_15_2: "ieee_cast 52 11 23 8 0x402E666666666666 = 0x41733333"
proof -
  have "ieee_isinf 52 11 0x402E666666666666 = False"
    "ieee_isnan 52 11 0x402E666666666666 = False"
    "ieee_magnitude 52 11 0x402E666666666666 = (8556839292003942, 562949953421312)"
    "ieee_sign 52 11 0x402E666666666666 = 0"
    "ieee_round 23 8 8556839292003942 562949953421312 = 0x41733333"
    "inf_pattern 23 8 = 0x7F800000"
    by (simp_all add: ieee_defs)
  then show ?thesis by (simp add: ieee_cast_def)
qed

lemma narrow_123: "ieee_cast 52 11 23 8 0x405EC00000000000 = 0x42F60000"
proof -
  have "ieee_isinf 52 11 0x405EC00000000000 = False"
    "ieee_isnan 52 11 0x405EC00000000000 = False"
    "ieee_magnitude 52 11 0x405EC00000000000 = (8655355533852672, 70368744177664)"
    "ieee_sign 52 11 0x405EC00000000000 = 0"
    "ieee_round 23 8 8655355533852672 70368744177664 = 0x42F60000"
    "inf_pattern 23 8 = 0x7F800000"
    by (simp_all add: ieee_defs)
  then show ?thesis by (simp add: ieee_cast_def)
qed

lemma pack_15_2: "struct_pack_f 0x402E666666666666 = Inr [0x41, 0x73, 0x33, 0x33]"
proof -
  have "ieee_isinf 23 8 0x41733333 = False" by (simp add: ieee_defs)
  then show ?thesis by (simp add: struct_pack_f_def narrow_15_2 be_bytes_4)
qed

lemma pack_123: "struct_pack_f 0x405EC00000000000 = Inr [0x42, 0xF6, 0x00, 0x00]"
proof -
  have "ieee_isinf 23 8 0x42F60000 = False" by (simp add: ieee_defs)
  then show ?thesis by (simp add: struct_pack_f_def narrow_123 be_bytes_4)
qed

lemma round_15_2: "py_round 0x402E666660000000 3 = Inr 0x402E666666666666"
proof -
  have "ieee_exponent 52 11 0x402E666660000000 = 1026"
    "ieee_sign 52 11 0x402E666660000000 = 0"
    "ieee_magnitude 52 11 0x402E666660000000 = (8556839184629760, 562949953421312)"
    "round_half_even (8556839184629760 * 10 ^ 3) 562949953421312 = 15200"
    "ieee_round 52 11 15200 (10 ^ 3) = 0x402E666666666666"
    "inf_pattern 52 11 = 0x7FF0000000000000"
    by (simp_all add: ieee_defs)
  then show ?thesis by (simp add: py_round_def)
qed

lemma round_123: "py_round 0x405EC00000000000 3 = Inr 0x405EC00000000000"
proof -
  have "ieee_exponent 52 11 0x405EC00000000000 = 1029"
    "ieee_sign 52 11 0x405EC00000000000 = 0"
    "ieee_magnitude 52 11 0x405EC00000000000 = (8655355533852672, 70368744177664)"
    "round_half_even (8655355533852672 * 10 ^ 3) 70368744177664 = 123000"
    "ieee_round 52 11 123000 (10 ^ 3) = 0x405EC00000000000"
    "inf_pattern 52 11 = 0x7FF0000000000000"
    by (simp_all add: ieee_defs)
  then show ?thesis by (simp add: py_round_def)
qed

section \<open>The literal test vector\<close>

lemma loads_simple_message:
  "cbor2_loads (drop 1 THINGSET_SIMPLE_MESSAGE) =
     Inr (PDict [(PInt 1, PInt 1539335128), (PInt 7, PFloat 0x405EC00000000000),
       (PInt 8, PFloat 0x402E666660000000), (PInt 9, PInt 82), (PInt 0x4E, PInt 854)])"
  by (simp add: THINGSET_SIMPLE_MESSAGE_def decode_defs unpack_15_2 unpack_123)

lemma function_simple_message:
  "parse_thingset_msg_function THINGSET_SIMPLE_MESSAGE = Inr PUBLICATION_MESSAGE"
  by (simp add: THINGSET_SIMPLE_MESSAGE_def parse_thingset_msg_function_def
      match_function_members)

lemma decode_simple_message_3:
  "decode_thingset_message THINGSET_SIMPLE_MESSAGE (Some 3) =
     Inr (Message PUBLICATION_MESSAGE THINGSET_TEST_MSG_PAYLOAD_RAW)"
  using loads_simple_message float_15_2 float_123
  by (simp add: decode_thingset_message_def function_simple_message
      parse_thingset_msg_payload_def parse_thingset_msg_payload_with_def round_15_2 round_123
      THINGSET_TEST_MSG_PAYLOAD_RAW_def)

lemma decode_simple_message_None:
  "decode_thingset_message THINGSET_SIMPLE_MESSAGE None =
     Inr (Message PUBLICATION_MESSAGE
       [(PInt 1, PInt 1539335128), (PInt 7, PFloat (float_of_decimal 1230 1)),
       (PInt 8, PFloat (float_of_decimal 15199999809265137 15)), (PInt 9, PInt 82),
       (PInt 0x4E, PInt 854)])"
  using loads_simple_message float_15_19 float_123
  by (simp add: decode_thingset_message_def function_simple_message
      parse_thingset_msg_payload_def parse_thingset_msg_payload_with_def)

lemma encode_simple_message:
  "encode_thingset_message (Message PUBLICATION_MESSAGE THINGSET_TEST_MSG_PAYLOAD_RAW) =
     Inr THINGSET_SIMPLE_MESSAGE"
  using float_15_2 float_123
  by (simp add: encode_thingset_message_def encode_length_def CBOREncoder_encode_def
      encode_int_def be_bytes_2 be_bytes_4 or_small THINGSET_TEST_MSG_PAYLOAD_RAW_def
      THINGSET_SIMPLE_MESSAGE_def encode_float_using_float32_def
      pack_15_2 pack_123)

theorem literal_vector_counterexample:
  "decode_thingset_message THINGSET_SIMPLE_MESSAGE None \<noteq>
     Inr (Message PUBLICATION_MESSAGE THINGSET_TEST_MSG_PAYLOAD_RAW)"
  using float_15_2 float_15_19
  by (simp add: decode_simple_message_None THINGSET_TEST_MSG_PAYLOAD_RAW_def)

text \<open>
  Claim C2, as amended. Decoded with \<^verbatim>\<open>floats_precision=3\<close>, as the tests do, the byte
  sequence 1F A5 01 1A 5BC063D8 07 FA 42F60000 08 FA 41733333 09 18 52 18 4E 19 0356
  yields the function PUBLICATION_MESSAGE and the payload
  {1: 1539335128, 7: 123.0, 8: 15.2, 9: 82, 0x4E: 854}, and encoding the message with that
  function and payload gives the same byte sequence back. (With no precision the value
  under key 8 is 15.199999809265137, the single-precision value the bytes hold, which is
  not the float 15.2: the counterexample above.)
\<close>

theorem literal_vector:
  "decode_thingset_message THINGSET_SIMPLE_MESSAGE (Some 3) =
     Inr (Message PUBLICATION_MESSAGE THINGSET_TEST_MSG_PAYLOAD_RAW)
   \<and> encode_thingset_message (Message PUBLICATION_MESSAGE THINGSET_TEST_MSG_PAYLOAD_RAW) =
     Inr THINGSET_SIMPLE_MESSAGE"
  by (simp add: decode_simple_message_3 encode_simple_message)

section \<open>Rounding on decode\<close>















section \<open>The map header\<close>

lemma function_value_byte: "function_value f mod 256 = function_value f"
  by (cases f) simp_all

lemma encode_message_shape:
  "encode_thingset_message msg = Inr out \<Longrightarrow>
     \<exists>marker rest. encode_length 0xA0 (length (Message.payload msg)) = Inr marker
       \<and> out = word_of_nat (function_value (Message.function' msg)) # marker @ rest"
proof -
  assume a: "encode_thingset_message msg = Inr out"
  then obtain marker where m: "encode_length 0xA0 (length (Message.payload msg)) = Inr marker"
    and items: "encode_payload_items
        (be_bytes 1 (function_value (Message.function' msg)) @ marker) (Message.payload msg)
      = Inr out"
    by (auto simp: encode_thingset_message_def Let_def split: sum.splits)
  from encode_payload_items_prefix [OF items] obtain rest where
    "out = (be_bytes 1 (function_value (Message.function' msg)) @ marker) @ rest" by blast
  with m show ?thesis by (simp add: function_value_byte)
qed

text \<open>
  Claim C4, as amended. The bytes of an encoded message start with the function byte,
  immediately followed by a definite-length CBOR map header that declares the number of
  payload entries in the shortest form: a count below 24 inside the header byte
  (0xA0 + count), a count from 24 to 255 as the byte 0xB8 and one byte, a count from 256 to
  65535 as the byte 0xB9 and two bytes, most significant first. (0x98 and 0x99 are the
  prefixes of arrays, not of maps: the counterexample below has 24 entries and the header
  B8 18.)
\<close>

theorem map_header_minimal:
  "encode_thingset_message msg = Inr out \<longrightarrow>
     (length (Message.payload msg) < 24 \<longrightarrow>
        take 2 out = [word_of_nat (function_value (Message.function' msg)),
                      word_of_nat (0xA0 + length (Message.payload msg))])
     \<and> (24 \<le> length (Message.payload msg) \<and> length (Message.payload msg) < 256 \<longrightarrow>
        take 3 out = [word_of_nat (function_value (Message.function' msg)), 0xB8,
                      word_of_nat (length (Message.payload msg))])
     \<and> (256 \<le> length (Message.payload msg) \<and> length (Message.payload msg) < 65536 \<longrightarrow>
        take 4 out = [word_of_nat (function_value (Message.function' msg)), 0xB9,
                      word_of_nat (length (Message.payload msg) div 256),
                      word_of_nat (length (Message.payload msg) mod 256)])"
proof
  assume "encode_thingset_message msg = Inr out"
  from encode_message_shape [OF this] obtain marker rest where
    m: "encode_length 0xA0 (length (Message.payload msg)) = Inr marker"
    and out: "out = word_of_nat (function_value (Message.function' msg)) # marker @ rest"
    by blast
  let ?n = "length (Message.payload msg)"
  have small: "?n < 24 \<Longrightarrow> marker = [word_of_nat (0xA0 + ?n)]"
    using m by (simp add: encode_length_def or_small)
  have one: "24 \<le> ?n \<Longrightarrow> ?n < 256 \<Longrightarrow> marker = [0xB8, word_of_nat ?n]"
    using m by (simp add: encode_length_def be_bytes_1)
  have two: "256 \<le> ?n \<Longrightarrow> ?n < 65536 \<Longrightarrow>
      marker = [0xB9, word_of_nat (?n div 256), word_of_nat (?n mod 256)]"
    using m by (simp add: encode_length_def be_bytes_2)
  show "(?n < 24 \<longrightarrow>
        take 2 out = [word_of_nat (function_value (Message.function' msg)),
                      word_of_nat (0xA0 + ?n)])
     \<and> (24 \<le> ?n \<and> ?n < 256 \<longrightarrow>
        take 3 out = [word_of_nat (function_value (Message.function' msg)), 0xB8,
                      word_of_nat ?n])
     \<and> (256 \<le> ?n \<and> ?n < 65536 \<longrightarrow>
        take 4 out = [word_of_nat (function_value (Message.function' msg)), 0xB9,
                      word_of_nat (?n div 256), word_of_nat (?n mod 256)])"
    using small one two out by auto
qed


lemma encode_24_entries:
  "encode_thingset_message (Message READ
     [
      (PInt 0, PNone), (PInt 1, PNone), (PInt 2, PNone), (PInt 3, PNone),
      (PInt 4, PNone), (PInt 5, PNone), (PInt 6, PNone), (PInt 7, PNone),
      (PInt 8, PNone), (PInt 9, PNone), (PInt 10, PNone), (PInt 11, PNone),
      (PInt 12, PNone), (PInt 13, PNone), (PInt 14, PNone), (PInt 15, PNone),
      (PInt 16, PNone), (PInt 17, PNone), (PInt 18, PNone), (PInt 19, PNone),
      (PInt 20, PNone), (PInt 21, PNone), (PInt 22, PNone), (PInt 23, PNone)])
   = Inr
     [
      0x01, 0xB8, 0x18, 0x00, 0xF6, 0x01, 0xF6, 0x02, 0xF6, 0x03, 0xF6, 0x04, 0xF6,
      0x05, 0xF6, 0x06, 0xF6, 0x07, 0xF6, 0x08, 0xF6, 0x09, 0xF6, 0x0A, 0xF6, 0x0B,
      0xF6, 0x0C, 0xF6, 0x0D, 0xF6, 0x0E, 0xF6, 0x0F, 0xF6, 0x10, 0xF6, 0x11, 0xF6,
      0x12, 0xF6, 0x13, 0xF6, 0x14, 0xF6, 0x15, 0xF6, 0x16, 0xF6, 0x17, 0xF6]"
  by (simp add: encode_thingset_message_def encode_length_def CBOREncoder_encode_def
      encode_int_def be_bytes_1)

theorem map_header_counterexample:
  "take 3 (projr (encode_thingset_message (Message READ
     [
      (PInt 0, PNone), (PInt 1, PNone), (PInt 2, PNone), (PInt 3, PNone),
      (PInt 4, PNone), (PInt 5, PNone), (PInt 6, PNone), (PInt 7, PNone),
      (PInt 8, PNone), (PInt 9, PNone), (PInt 10, PNone), (PInt 11, PNone),
      (PInt 12, PNone), (PInt 13, PNone), (PInt 14, PNone), (PInt 15, PNone),
      (PInt 16, PNone), (PInt 17, PNone), (PInt 18, PNone), (PInt 19, PNone),
      (PInt 20, PNone), (PInt 21, PNone), (PInt 22, PNone), (PInt 23, PNone)]))) \<noteq> [0x01, 0x98, 0x18]"
  by (simp add: encode_24_entries)

theorem map_header_minimal_witness:
  "encode_thingset_message (Message READ
     [
      (PInt 0, PNone), (PInt 1, PNone), (PInt 2, PNone), (PInt 3, PNone),
      (PInt 4, PNone), (PInt 5, PNone), (PInt 6, PNone), (PInt 7, PNone),
      (PInt 8, PNone), (PInt 9, PNone), (PInt 10, PNone), (PInt 11, PNone),
      (PInt 12, PNone), (PInt 13, PNone), (PInt 14, PNone), (PInt 15, PNone),
      (PInt 16, PNone), (PInt 17, PNone), (PInt 18, PNone), (PInt 19, PNone),
      (PInt 20, PNone), (PInt 21, PNone), (PInt 22, PNone), (PInt 23, PNone)])
   = Inr
     [
      0x01, 0xB8, 0x18, 0x00, 0xF6, 0x01, 0xF6, 0x02, 0xF6, 0x03, 0xF6, 0x04, 0xF6,
      0x05, 0xF6, 0x06, 0xF6, 0x07, 0xF6, 0x08, 0xF6, 0x09, 0xF6, 0x0A, 0xF6, 0x0B,
      0xF6, 0x0C, 0xF6, 0x0D, 0xF6, 0x0E, 0xF6, 0x0F, 0xF6, 0x10, 0xF6, 0x11, 0xF6,
      0x12, 0xF6, 0x13, 0xF6, 0x14, 0xF6, 0x15, 0xF6, 0x16, 0xF6, 0x17, 0xF6]
   \<and> 24 \<le> length (Message.payload (Message READ
     [
      (PInt 0, PNone), (PInt 1, PNone), (PInt 2, PNone), (PInt 3, PNone),
      (PInt 4, PNone), (PInt 5, PNone), (PInt 6, PNone), (PInt 7, PNone),
      (PInt 8, PNone), (PInt 9, PNone), (PInt 10, PNone), (PInt 11, PNone),
      (PInt 12, PNone), (PInt 13, PNone), (PInt 14, PNone), (PInt 15, PNone),
      (PInt 16, PNone), (PInt 17, PNone), (PInt 18, PNone), (PInt 19, PNone),
      (PInt 20, PNone), (PInt 21, PNone), (PInt 22, PNone), (PInt 23, PNone)]))
   \<and> take 3
     [
      0x01, 0xB8, 0x18, 0x00, 0xF6, 0x01, 0xF6, 0x02, 0xF6, 0x03, 0xF6, 0x04, 0xF6,
      0x05, 0xF6, 0x06, 0xF6, 0x07, 0xF6, 0x08, 0xF6, 0x09, 0xF6, 0x0A, 0xF6, 0x0B,
      0xF6, 0x0C, 0xF6, 0x0D, 0xF6, 0x0E, 0xF6, 0x0F, 0xF6, 0x10, 0xF6, 0x11, 0xF6,
      0x12, 0xF6, 0x13, 0xF6, 0x14, 0xF6, 0x15, 0xF6, 0x16, 0xF6, 0x17, 0xF6]
     = [word_of_nat (function_value READ), 0xB8, word_of_nat 24]"
  using encode_24_entries
    map_header_minimal [of "Message READ
     [
      (PInt 0, PNone), (PInt 1, PNone), (PInt 2, PNone), (PInt 3, PNone),
      (PInt 4, PNone), (PInt 5, PNone), (PInt 6, PNone), (PInt 7, PNone),
      (PInt 8, PNone), (PInt 9, PNone), (PInt 10, PNone), (PInt 11, PNone),
      (PInt 12, PNone), (PInt 13, PNone), (PInt 14, PNone), (PInt 15, PNone),
      (PInt 16, PNone), (PInt 17, PNone), (PInt 18, PNone), (PInt 19, PNone),
      (PInt 20, PNone), (PInt 21, PNone), (PInt 22, PNone), (PInt 23, PNone)]"
     "[
      0x01, 0xB8, 0x18, 0x00, 0xF6, 0x01, 0xF6, 0x02, 0xF6, 0x03, 0xF6, 0x04, 0xF6,
      0x05, 0xF6, 0x06, 0xF6, 0x07, 0xF6, 0x08, 0xF6, 0x09, 0xF6, 0x0A, 0xF6, 0x0B,
      0xF6, 0x0C, 0xF6, 0x0D, 0xF6, 0x0E, 0xF6, 0x0F, 0xF6, 0x10, 0xF6, 0x11, 0xF6,
      0x12, 0xF6, 0x13, 0xF6, 0x14, 0xF6, 0x15, 0xF6, 0x16, 0xF6, 0x17, 0xF6]"]
  by simp

section \<open>Floats are written in single precision\<close>

lemma float_1e39: "float_of_decimal (10 ^ 39) 0 = 0x48078287F49C4A1D"
  by (simp add: float_of_decimal_def ieee_defs)

lemma pack_1e39: "struct_pack_f 0x48078287F49C4A1D = Inl OverflowError"
proof -
  have "ieee_isinf 52 11 0x48078287F49C4A1D = False"
    "ieee_isnan 52 11 0x48078287F49C4A1D = False"
    "ieee_sign 52 11 0x48078287F49C4A1D = 0"
    "inf_pattern 23 8 = 0x7F800000"
    by (simp_all add: ieee_defs)
  moreover have "ieee_magnitude 52 11 0x48078287F49C4A1D
      = (0x178287F49C4A1D * 2 ^ 77, 1)"
    by (simp add: ieee_defs)
  moreover have "0x7F800000 \<le> ieee_round 23 8 (0x178287F49C4A1D * 2 ^ 77) 1"
    by (simp add: ieee_defs)
  ultimately have c: "ieee_cast 52 11 23 8 0x48078287F49C4A1D = 0x7F800000"
    by (simp add: ieee_cast_def)
  have "ieee_isinf 23 8 0x7F800000" by (simp add: ieee_defs)
  with c \<open>ieee_isinf 52 11 0x48078287F49C4A1D = False\<close> show ?thesis
    by (simp add: struct_pack_f_def)
qed

theorem float32_forcing_counterexample:
  "encode_thingset_message
     (Message PUBLICATION_MESSAGE [(PInt 1, PFloat (float_of_decimal (10 ^ 39) 0))])
   = Inl OverflowError"
  using float_1e39
  by (simp add: encode_thingset_message_def encode_length_def CBOREncoder_encode_def
      encode_int_def encode_float_using_float32_def pack_1e39)

lemma encode_payload_items_float:
  "encode_payload_items result (pre @ (k, PFloat x) # post) = Inr out \<Longrightarrow>
     \<exists>start kb. encode_payload_items result pre = Inr start \<and> cbor2_encode k = Inr kb
       \<and> struct_pack_f x = Inr (be_bytes 4 (ieee_cast 52 11 23 8 (unat x)))
       \<and> encode_payload_items
            (start @ kb @ 0xFA # be_bytes 4 (ieee_cast 52 11 23 8 (unat x))) post = Inr out"
proof (induction pre arbitrary: result)
  case Nil
  from Nil obtain r1 r2 where
    r1: "CBOREncoder_encode result k = Inr r1"
    and r2: "encode_float_using_float32 r1 x = Inr r2"
    and rest: "encode_payload_items r2 post = Inr out"
    by (auto split: sum.splits)
  from r1 obtain kb where kb: "cbor2_encode k = Inr kb" "r1 = result @ kb"
    by (auto simp: CBOREncoder_encode_def split: sum.splits)
  from r2 have p: "struct_pack_f x = Inr (be_bytes 4 (ieee_cast 52 11 23 8 (unat x)))"
    and r2': "r2 = r1 @ 0xFA # be_bytes 4 (ieee_cast 52 11 23 8 (unat x))"
    by (auto simp: encode_float_using_float32_def struct_pack_f_def Let_def
        split: sum.splits if_splits)
  from kb p r2' rest show ?case by simp
next
  case (Cons kv pre)
  obtain k' v' where kv: "kv = (k', v')" by (cases kv)
  from Cons.prems obtain r1 r2 where
    r1: "CBOREncoder_encode result k' = Inr r1"
    and r2: "(case v' of PFloat x \<Rightarrow> encode_float_using_float32 r1 x
               | _ \<Rightarrow> CBOREncoder_encode r1 v') = Inr r2"
    and rest: "encode_payload_items r2 (pre @ (k, PFloat x) # post) = Inr out"
    unfolding kv by (auto split: sum.splits)
  from Cons.IH [OF rest] obtain start kb where
    "encode_payload_items r2 pre = Inr start" "cbor2_encode k = Inr kb"
    "struct_pack_f x = Inr (be_bytes 4 (ieee_cast 52 11 23 8 (unat x)))"
    "encode_payload_items
       (start @ kb @ 0xFA # be_bytes 4 (ieee_cast 52 11 23 8 (unat x))) post = Inr out"
    by blast
  with r1 r2 kv show ?case by simp
qed

lemma length_be_bytes: "length (be_bytes k n) = k"
  by (induction k arbitrary: n) simp_all

text \<open>
  Claim C1, as amended. Whenever \<^verbatim>\<open>encode_thingset_message\<close> returns the bytes of a message
  whose payload holds a float, that float is encoded, right after the bytes of its key, as
  exactly 5 bytes: 0xFA and the 4 bytes, most significant first, of its conversion to
  IEEE-754 single precision; the library's float16 and float64 forms are never used for
  it. No bytes are returned when a finite float rounds beyond the largest single-precision
  value: packing 1e39 raises OverflowError, the counterexample above.
\<close>

theorem float32_forcing:
  "encode_thingset_message (Message f (pre @ (k, PFloat x) # post)) = Inr out \<longrightarrow>
     (\<exists>marker start kb tail.
        encode_length 0xA0 (length (pre @ (k, PFloat x) # post)) = Inr marker
        \<and> encode_payload_items (be_bytes 1 (function_value f) @ marker) pre = Inr start
        \<and> cbor2_encode k = Inr kb
        \<and> out = start @ kb @ [0xFA] @ be_bytes 4 (ieee_cast 52 11 23 8 (unat x)) @ tail
        \<and> length ([0xFA] @ be_bytes 4 (ieee_cast 52 11 23 8 (unat x))) = 5
        \<and> struct_pack_f x = Inr (be_bytes 4 (ieee_cast 52 11 23 8 (unat x))))"
proof
  assume "encode_thingset_message (Message f (pre @ (k, PFloat x) # post)) = Inr out"
  then obtain marker where
    m: "encode_length 0xA0 (length (pre @ (k, PFloat x) # post)) = Inr marker"
    and items: "encode_payload_items (be_bytes 1 (function_value f) @ marker)
        (pre @ (k, PFloat x) # post) = Inr out"
    by (auto simp: encode_thingset_message_def Let_def split: sum.splits)
  from encode_payload_items_float [OF items] obtain start kb where
    s: "encode_payload_items (be_bytes 1 (function_value f) @ marker) pre = Inr start"
    and kb: "cbor2_encode k = Inr kb"
    and p: "struct_pack_f x = Inr (be_bytes 4 (ieee_cast 52 11 23 8 (unat x)))"
    and rest: "encode_payload_items
        (start @ kb @ 0xFA # be_bytes 4 (ieee_cast 52 11 23 8 (unat x))) post = Inr out"
    by blast
  from encode_payload_items_prefix [OF rest] obtain tail where
    "out = (start @ kb @ 0xFA # be_bytes 4 (ieee_cast 52 11 23 8 (unat x))) @ tail"
    by blast
  with m s kb p show "\<exists>marker start kb tail.
        encode_length 0xA0 (length (pre @ (k, PFloat x) # post)) = Inr marker
        \<and> encode_payload_items (be_bytes 1 (function_value f) @ marker) pre = Inr start
        \<and> cbor2_encode k = Inr kb
        \<and> out = start @ kb @ [0xFA] @ be_bytes 4 (ieee_cast 52 11 23 8 (unat x)) @ tail
        \<and> length ([0xFA] @ be_bytes 4 (ieee_cast 52 11 23 8 (unat x))) = 5
        \<and> struct_pack_f x = Inr (be_bytes 4 (ieee_cast 52 11 23 8 (unat x)))"
    by (intro exI [of _ marker] exI [of _ start] exI [of _ kb] exI [of _ tail])
      (simp add: length_be_bytes)
qed

theorem float32_forcing_witness:
  "encode_thingset_message (Message PUBLICATION_MESSAGE
      ([(PInt 1, PInt 1539335128)] @ (PInt 7, PFloat 0x405EC00000000000)
         # [(PInt 8, PFloat 0x402E666666666666), (PInt 9, PInt 82), (PInt 0x4E, PInt 854)]))
     = Inr THINGSET_SIMPLE_MESSAGE
   \<and> (\<exists>marker start kb tail.
        encode_length 0xA0 (length ([(PInt 1, PInt 1539335128)]
            @ (PInt 7, PFloat 0x405EC00000000000)
            # [(PInt 8, PFloat 0x402E666666666666), (PInt 9, PInt 82),
               (PInt 0x4E, PInt 854)])) = Inr marker
        \<and> encode_payload_items (be_bytes 1 (function_value PUBLICATION_MESSAGE) @ marker)
             [(PInt 1, PInt 1539335128)] = Inr start
        \<and> cbor2_encode (PInt 7) = Inr kb
        \<and> THINGSET_SIMPLE_MESSAGE
            = start @ kb @ [0xFA]
                @ be_bytes 4 (ieee_cast 52 11 23 8 (unat (0x405EC00000000000 :: 64 word)))
                @ tail)"
proof -
  have e: "encode_thingset_message (Message PUBLICATION_MESSAGE
      ([(PInt 1, PInt 1539335128)] @ (PInt 7, PFloat 0x405EC00000000000)
         # [(PInt 8, PFloat 0x402E666666666666), (PInt 9, PInt 82), (PInt 0x4E, PInt 854)]))
     = Inr THINGSET_SIMPLE_MESSAGE"
    using encode_simple_message float_15_2 float_123
    by (simp add: THINGSET_TEST_MSG_PAYLOAD_RAW_def)
  from float32_forcing [of PUBLICATION_MESSAGE "[(PInt 1, PInt 1539335128)]" "PInt 7"
      "0x405EC00000000000"
      "[(PInt 8, PFloat 0x402E666666666666), (PInt 9, PInt 82), (PInt 0x4E, PInt 854)]"
      THINGSET_SIMPLE_MESSAGE] e
  show ?thesis by blast
qed

section \<open>The round trip\<close>

text \<open>Integers written by the encoder are read back by the decoder.\<close>

lemma unat_byte: "m < 256 \<Longrightarrow> unat (word_of_nat m :: byte) = m"
  by (simp add: unat_of_nat)

lemma be_nat_acc_snoc: "be_nat_acc a (xs @ [b]) = be_nat_acc a xs * 256 + unat b"
  by (induction xs arbitrary: a) simp_all

lemma be_nat_be_bytes: "be_nat (be_bytes k n) = n mod 256 ^ k"
proof (induction k arbitrary: n)
  case 0
  then show ?case by (simp add: be_nat_def)
next
  case (Suc k)
  have "be_nat (be_bytes (Suc k) n)
      = be_nat (be_bytes k (n div 256)) * 256 + unat (word_of_nat (n mod 256) :: byte)"
    by (simp add: be_nat_def be_nat_acc_snoc)
  also have "\<dots> = (n div 256 mod 256 ^ k) * 256 + n mod 256"
    by (simp add: Suc.IH unat_byte)
  also have "\<dots> = n mod 256 ^ Suc k"
    by (simp add: mod_mult2_eq)
  finally show ?case .
qed

lemma stream_read_append:
  "length b = k \<Longrightarrow> stream_read k (b @ rest) = Inr (b, rest)"
  by (simp add: stream_read_def)

lemma read_uint_be_bytes:
  "n < 256 ^ k \<Longrightarrow> read_uint k (be_bytes k n @ rest) = Inr (n, rest)"
  by (simp add: read_uint_def stream_read_append length_be_bytes be_nat_be_bytes)

lemma or_tag:
  assumes "s < 32" and "mt \<in> {0, 0x20, 0x40, 0xA0}"
  shows "(mt::nat) OR s = mt + s"
proof -
  from assms(1) have "s \<in> {0,1,2,3,4,5,6,7,8,9,10,11,12,13,14,15,16,17,18,19,20,21,22,23,
      24,25,26,27,28,29,30,31}"
    by (simp; arith)
  with assms(2) show ?thesis by auto
qed

lemma encode_length_decode:
  assumes n: "n < 2 ^ 64" and mt: "mt \<in> {0, 0x20, 0x40, 0xA0}"
  shows "\<exists>b0 ext. encode_length mt n = Inr (b0 # ext)
     \<and> unat b0 div 32 = mt div 32 \<and> unat b0 mod 32 < 28
     \<and> (\<forall>rest. decode_uint (unat b0 mod 32) (ext @ rest) = Inr (n, rest))"
proof -
  have tag: "unat (word_of_nat (mt OR s) :: byte) = mt + s" if "s < 32" for s
  proof -
    from that mt have e: "mt OR s = mt + s" by (rule or_tag)
    from that mt have "mt + s < 256" by auto
    then have "unat (word_of_nat (mt + s) :: byte) = mt + s" by (rule unat_byte)
    then show ?thesis unfolding e .
  qed
  have dv: "(mt + s) div 32 = mt div 32 \<and> (mt + s) mod 32 = s" if "s < 32" for s
  proof -
    from mt obtain j where j: "mt = 32 * j" "j < 8"
      by (elim insertE emptyE) (simp_all add: mult.commute [of 32])
    from that show ?thesis unfolding j(1) by simp
  qed
  consider "n < 24" | "24 \<le> n" "n < 256" | "256 \<le> n" "n < 65536"
    | "65536 \<le> n" "n < 4294967296" | "4294967296 \<le> n"
    by linarith
  then show ?thesis
  proof cases
    case 1
    then have "encode_length mt n = Inr [word_of_nat (mt OR n)]"
      by (simp add: encode_length_def)
    moreover from 1 have "n < 32" by simp
    ultimately show ?thesis
      using 1 tag [of n] dv [of n] by (simp add: decode_uint_def)
  next
    case 2
    then have "encode_length mt n = Inr (word_of_nat (mt OR 24) # be_bytes 1 n)"
      by (simp add: encode_length_def)
    moreover have "\<And>rest. read_uint 1 (be_bytes 1 n @ rest) = Inr (n, rest)"
      using 2 read_uint_be_bytes [of n 1] by simp
    ultimately show ?thesis
      using tag [of 24] dv [of 24] by (simp add: decode_uint_def)
  next
    case 3
    then have "encode_length mt n = Inr (word_of_nat (mt OR 25) # be_bytes 2 n)"
      by (simp add: encode_length_def)
    moreover have "\<And>rest. read_uint 2 (be_bytes 2 n @ rest) = Inr (n, rest)"
      using 3 read_uint_be_bytes [of n 2] by simp
    ultimately show ?thesis
      using tag [of 25] dv [of 25] by (simp add: decode_uint_def)
  next
    case 4
    then have "encode_length mt n = Inr (word_of_nat (mt OR 26) # be_bytes 4 n)"
      by (simp add: encode_length_def)
    moreover have "\<And>rest. read_uint 4 (be_bytes 4 n @ rest) = Inr (n, rest)"
      using 4 read_uint_be_bytes [of n 4] by simp
    ultimately show ?thesis
      using tag [of 26] dv [of 26] by (simp add: decode_uint_def)
  next
    case 5
    with n have "encode_length mt n = Inr (word_of_nat (mt OR 27) # be_bytes 8 n)"
      by (simp add: encode_length_def struct_pack_uint_def)
    moreover have "\<And>rest. read_uint 8 (be_bytes 8 n @ rest) = Inr (n, rest)"
      using n read_uint_be_bytes [of n 8] by simp
    ultimately show ?thesis
      using tag [of 27] dv [of 27] by (simp add: decode_uint_def)
  qed
qed

text \<open>Every key and every scalar value is decoded from its encoding.\<close>

lemma encode_int_decode:
  assumes "cbor_integer v"
  shows "\<exists>enc. encode_int v = Inr enc
     \<and> (\<forall>d rest. decode_item (Suc d) (enc @ rest) = Inr (PInt v, rest))"
proof (cases "0 \<le> v")
  case True
  with assms have n: "nat v < 2 ^ 64" by (simp add: cbor_integer_def)
  from encode_length_decode [OF n, of 0] obtain b0 ext where
    e: "encode_length 0 (nat v) = Inr (b0 # ext)"
    and t: "unat b0 div 32 = 0"
    and u: "\<And>rest. decode_uint (unat b0 mod 32) (ext @ rest) = Inr (nat v, rest)"
    by auto
  from True assms e have "encode_int v = Inr (b0 # ext)"
    by (simp add: encode_int_def cbor_integer_def)
  moreover from True t u have "decode_item (Suc d) ((b0 # ext) @ rest) = Inr (PInt v, rest)"
    for d rest
    by (simp add: Let_def)
  ultimately show ?thesis by blast
next
  case False
  with assms have n: "nat (\<bar>v\<bar> - 1) < 2 ^ 64" by (simp add: cbor_integer_def)
  from encode_length_decode [OF n, of "0x20"] obtain b0 ext where
    e: "encode_length 0x20 (nat (\<bar>v\<bar> - 1)) = Inr (b0 # ext)"
    and t: "unat b0 div 32 = 1"
    and u: "\<And>rest. decode_uint (unat b0 mod 32) (ext @ rest) = Inr (nat (\<bar>v\<bar> - 1), rest)"
    by auto
  from False assms e have "encode_int v = Inr (b0 # ext)"
    by (simp add: encode_int_def cbor_integer_def)
  moreover from False t u have "decode_item (Suc d) ((b0 # ext) @ rest) = Inr (PInt v, rest)"
    for d rest
    by (simp add: Let_def)
  ultimately show ?thesis by blast
qed

lemma encode_bytes_decode:
  assumes "length bs < 2 ^ 64"
  shows "\<exists>enc. cbor2_encode (PBytes bs) = Inr enc
     \<and> (\<forall>d rest. decode_item (Suc d) (enc @ rest) = Inr (PBytes bs, rest))"
proof -
  from encode_length_decode [OF assms, of "0x40"] obtain b0 ext where
    e: "encode_length 0x40 (length bs) = Inr (b0 # ext)"
    and t: "unat b0 div 32 = 2"
    and s: "unat b0 mod 32 < 28"
    and u: "\<And>rest. decode_uint (unat b0 mod 32) (ext @ rest) = Inr (length bs, rest)"
    by auto
  from e have "cbor2_encode (PBytes bs) = Inr ((b0 # ext) @ bs)" by simp
  moreover from t s u [of "bs @ rest" for rest]
  have "decode_item (Suc d) (((b0 # ext) @ bs) @ rest) = Inr (PBytes bs, rest)" for d rest
    by (simp add: Let_def decode_bytestring_def decode_length_def stream_read_def)
  ultimately show ?thesis by blast
qed

lemma ieee_sign_le: "ieee_sign F W n \<le> 1"
  by (simp add: ieee_sign_def)

lemma cast_single_bound:
  assumes "\<not> ieee_isnan 52 11 n"
  shows "ieee_cast 52 11 23 8 n < 4294967296"
proof -
  have s: "ieee_sign 52 11 n * 2 ^ (23 + 8) \<le> 2147483648"
    using ieee_sign_le [of 52 11 n] by simp
  have i: "inf_pattern 23 8 = 2139095040" by (simp add: inf_pattern_def)
  have m: "min a (inf_pattern 23 8) \<le> 2139095040" for a
    unfolding i by simp
  show ?thesis
  proof (cases "ieee_isinf 52 11 n")
    case True
    then have "ieee_cast 52 11 23 8 n = ieee_sign 52 11 n * 2 ^ (23 + 8) + inf_pattern 23 8"
      by (simp add: ieee_cast_def Let_def)
    with s i show ?thesis by simp
  next
    case False
    obtain p q where pq: "ieee_magnitude 52 11 n = (p, q)" by (cases "ieee_magnitude 52 11 n")
    with False assms have "ieee_cast 52 11 23 8 n
        = ieee_sign 52 11 n * 2 ^ (23 + 8) + min (ieee_round 23 8 p q) (inf_pattern 23 8)"
      by (simp add: ieee_cast_def Let_def)
    with s m [of "ieee_round 23 8 p q"] show ?thesis by simp
  qed
qed

lemma widen_inf:
  assumes "ieee_isinf 23 8 y"
  shows "ieee_isinf 52 11 (ieee_cast 23 8 52 11 y)"
proof -
  define s where "s = ieee_sign 23 8 y"
  from assms have "ieee_cast 23 8 52 11 y = s * 2 ^ (52 + 11) + inf_pattern 52 11"
    by (simp add: ieee_cast_def Let_def s_def)
  also have "\<dots> = (s * 2048 + 2047) * 4503599627370496"
    by (simp add: inf_pattern_def)
  finally have c: "ieee_cast 23 8 52 11 y = (s * 2048 + 2047) * 4503599627370496" .
  show ?thesis
    unfolding c by (simp add: ieee_isinf_def ieee_exponent_def ieee_fraction_def)
qed

lemma struct_pack_f_representable:
  assumes "float32_representable x"
  shows "struct_pack_f x = Inr (be_bytes 4 (ieee_cast 52 11 23 8 (unat x)))"
proof -
  from assms have r: "ieee_cast 23 8 52 11 (ieee_cast 52 11 23 8 (unat x)) = unat x"
    by (simp add: float32_representable_def)
  have "ieee_isinf 52 11 (unat x)" if "ieee_isinf 23 8 (ieee_cast 52 11 23 8 (unat x))"
    using widen_inf [OF that] unfolding r .
  then show ?thesis by (auto simp: struct_pack_f_def Let_def)
qed

lemma struct_unpack_f_representable:
  assumes "float32_representable x"
  shows "struct_unpack_f (be_bytes 4 (ieee_cast 52 11 23 8 (unat x))) = x"
proof -
  from assms have r: "ieee_cast 23 8 52 11 (ieee_cast 52 11 23 8 (unat x)) = unat x"
    and n: "\<not> ieee_isnan 52 11 (unat x)"
    by (simp_all add: float32_representable_def)
  from cast_single_bound [OF n]
  have "be_nat (be_bytes 4 (ieee_cast 52 11 23 8 (unat x))) = ieee_cast 52 11 23 8 (unat x)"
    by (simp add: be_nat_be_bytes)
  then show ?thesis by (simp add: struct_unpack_f_def r)
qed

lemma encode_float32_decode:
  assumes "float32_representable x"
  shows "\<exists>enc. (\<forall>target. encode_float_using_float32 target x = Inr (target @ enc))
     \<and> (\<forall>d rest. decode_item (Suc d) (enc @ rest) = Inr (PFloat x, rest))"
proof -
  define b where "b = be_bytes 4 (ieee_cast 52 11 23 8 (unat x))"
  have p: "struct_pack_f x = Inr b"
    unfolding b_def using assms by (rule struct_pack_f_representable)
  have u: "struct_unpack_f b = x"
    unfolding b_def using assms by (rule struct_unpack_f_representable)
  have l: "length b = 4" by (simp add: b_def length_be_bytes)
  have "encode_float_using_float32 target x = Inr (target @ 0xFA # b)" for target
    by (simp add: encode_float_using_float32_def p)
  moreover have "decode_item (Suc d) ((0xFA # b) @ rest) = Inr (PFloat x, rest)" for d rest
    using stream_read_append [OF l, of rest]
    by (simp add: Let_def decode_special_def read_float_def u)
  ultimately show ?thesis by blast
qed


lemma encode_key_decode:
  assumes "integer_key k"
  shows "\<exists>enc. (\<forall>result. CBOREncoder_encode result k = Inr (result @ enc))
     \<and> (\<forall>d rest. decode_item (Suc d) (enc @ rest) = Inr (k, rest))"
proof -
  from assms obtain v where k: "k = PInt v" and v: "cbor_integer v"
    by (cases k) simp_all
  from encode_int_decode [OF v] obtain enc where
    "encode_int v = Inr enc"
    "\<And>d rest. decode_item (Suc d) (enc @ rest) = Inr (PInt v, rest)"
    by blast
  then show ?thesis unfolding k by (auto simp: CBOREncoder_encode_def)
qed

lemma encode_value_decode:
  assumes "scalar_value v"
  shows "\<exists>enc. (\<forall>result. (case v of PFloat x \<Rightarrow> encode_float_using_float32 result x
                              | _ \<Rightarrow> CBOREncoder_encode result v) = Inr (result @ enc))
     \<and> (\<forall>d rest. decode_item (Suc d) (enc @ rest) = Inr (v, rest))"
proof (cases v)
  case (PInt i)
  with assms have "cbor_integer i" by simp
  from encode_int_decode [OF this] obtain enc where
    "encode_int i = Inr enc"
    "\<And>d rest. decode_item (Suc d) (enc @ rest) = Inr (PInt i, rest)"
    by blast
  then show ?thesis unfolding PInt by (auto simp: CBOREncoder_encode_def)
next
  case (PFloat x)
  with assms have "float32_representable x" by simp
  from encode_float32_decode [OF this] show ?thesis unfolding PFloat by simp
next
  case (PBool b)
  have "decode_item (Suc d) ([if b then 0xF5 else 0xF4] @ rest) = Inr (PBool b, rest)"
    for d rest
    by (simp add: Let_def decode_special_def)
  then show ?thesis unfolding PBool
    by (intro exI [of _ "[if b then 0xF5 else 0xF4]"]) (simp add: CBOREncoder_encode_def)
next
  case PNone
  have "decode_item (Suc d) ([0xF6] @ rest) = Inr (PNone, rest)" for d rest
    by (simp add: Let_def decode_special_def)
  then show ?thesis unfolding PNone
    by (intro exI [of _ "[0xF6]"]) (simp add: CBOREncoder_encode_def)
next
  case (PBytes bs)
  with assms have "length bs < 2 ^ 64" by simp
  from encode_bytes_decode [OF this] obtain enc where
    "cbor2_encode (PBytes bs) = Inr enc"
    "\<And>d rest. decode_item (Suc d) (enc @ rest) = Inr (PBytes bs, rest)"
    by blast
  then show ?thesis unfolding PBytes
    by (intro exI [of _ enc]) (simp add: CBOREncoder_encode_def del: cbor2_encode.simps)
qed (use assms in simp_all)

lemma encode_payload_items_decode:
  assumes "\<forall>kv\<in>set items. integer_key (fst kv) \<and> scalar_value (snd kv)"
  shows "\<exists>bs. (\<forall>result. encode_payload_items result items = Inr (result @ bs))
     \<and> (\<forall>d rest acc. decode_map_items (Suc d) (length items) (bs @ rest) acc
          = Inr (fold (\<lambda>kv a. dict_set a (fst kv) (snd kv)) items acc, rest))"
  using assms
proof (induction items)
  case Nil
  show ?case by (intro exI [of _ "[]"]) simp
next
  case (Cons kv items)
  obtain k v where kv: "kv = (k, v)" by (cases kv)
  from Cons.prems have k: "integer_key k" and v: "scalar_value v"
    and more: "\<forall>kv\<in>set items. integer_key (fst kv) \<and> scalar_value (snd kv)"
    by (simp_all add: kv)
  from encode_key_decode [OF k] obtain ek where
    ek: "\<And>result. CBOREncoder_encode result k = Inr (result @ ek)"
    and dk: "\<And>d rest. decode_item (Suc d) (ek @ rest) = Inr (k, rest)"
    by blast
  from encode_value_decode [OF v] obtain ev where
    ev: "\<And>result. (case v of PFloat x \<Rightarrow> encode_float_using_float32 result x
                       | _ \<Rightarrow> CBOREncoder_encode result v) = Inr (result @ ev)"
    and dv: "\<And>d rest. decode_item (Suc d) (ev @ rest) = Inr (v, rest)"
    by blast
  from Cons.IH [OF more] obtain bs where
    eb: "\<And>result. encode_payload_items result items = Inr (result @ bs)"
    and db: "\<And>d rest acc. decode_map_items (Suc d) (length items) (bs @ rest) acc
          = Inr (fold (\<lambda>kv a. dict_set a (fst kv) (snd kv)) items acc, rest)"
    by blast
  from k have mk: "modelled_key k" by (cases k) simp_all
  have "encode_payload_items result (kv # items) = Inr (result @ ek @ ev @ bs)" for result
    unfolding kv by (simp add: ek ev eb)
  moreover have "decode_map_items (Suc d) (length (kv # items)) ((ek @ ev @ bs) @ rest) acc
      = Inr (fold (\<lambda>kv a. dict_set a (fst kv) (snd kv)) (kv # items) acc, rest)"
    for d rest acc
    using dk [of d "ev @ bs @ rest"] dv [of d "bs @ rest"] db [of d rest "dict_set acc k v"] mk
    unfolding kv by (simp del: decode_item.simps)
  ultimately show ?case by blast
qed

lemma fold_dict_set_distinct:
  "distinct (map fst items) \<Longrightarrow> fst ` set acc \<inter> fst ` set items = {} \<Longrightarrow>
     fold (\<lambda>kv a. dict_set a (fst kv) (snd kv)) items acc = acc @ items"
proof (induction items arbitrary: acc)
  case Nil
  then show ?case by simp
next
  case (Cons kv items)
  from Cons.prems have f: "fst kv \<notin> fst ` set acc" by auto
  then have d: "dict_set acc (fst kv) (snd kv) = acc @ [kv]"
    by (simp add: dict_set_fresh)
  from Cons.prems have "fst ` set (acc @ [kv]) \<inter> fst ` set items = {}" by auto
  with Cons.prems Cons.IH [of "acc @ [kv]"] show ?case by (simp add: d)
qed

lemma parse_payload_items_fold:
  "parse_payload_items None items acc
     = Inr (fold (\<lambda>kv a. dict_set a (fst kv) (snd kv)) items acc)"
  by (induction items arbitrary: acc) auto

lemma parse_function_value:
  "parse_thingset_msg_function (word_of_nat (function_value f) # rest) = Inr f"
proof -
  have "unat (word_of_nat (function_value f) :: byte) = function_value f"
    by (cases f) simp_all
  moreover have "match_function (function_value f) ThingsetFunction_members = Some f"
    by (cases f) (simp_all add: match_function_members)
  ultimately show ?thesis by (simp add: parse_thingset_msg_function_def)
qed

text \<open>Two floats that are exactly representable in single precision: 15.2f and 123.0.\<close>

lemma narrow_15_19: "ieee_cast 52 11 23 8 0x402E666660000000 = 0x41733333"
proof -
  have "ieee_isinf 52 11 0x402E666660000000 = False"
    "ieee_isnan 52 11 0x402E666660000000 = False"
    "ieee_magnitude 52 11 0x402E666660000000 = (8556839184629760, 562949953421312)"
    "ieee_sign 52 11 0x402E666660000000 = 0"
    "ieee_round 23 8 8556839184629760 562949953421312 = 0x41733333"
    "inf_pattern 23 8 = 0x7F800000"
    by (simp_all add: ieee_defs)
  then show ?thesis by (simp add: ieee_cast_def)
qed

lemma representable_15_19: "float32_representable 0x402E666660000000"
proof -
  have "ieee_isnan 52 11 0x402E666660000000 = False" by (simp add: ieee_defs)
  then show ?thesis by (simp add: float32_representable_def narrow_15_19 cast_15_2)
qed

lemma representable_123: "float32_representable 0x405EC00000000000"
proof -
  have "ieee_isnan 52 11 0x405EC00000000000 = False" by (simp add: ieee_defs)
  then show ?thesis by (simp add: float32_representable_def narrow_123 cast_123)
qed

text \<open>
  Claim C3. For every message whose payload has distinct integer keys and scalar values,
  the floats among them exactly representable in single precision,
  \<^verbatim>\<open>encode_thingset_message\<close> returns bytes, and \<^verbatim>\<open>decode_thingset_message\<close> applied to
  these bytes with no \<^verbatim>\<open>floats_precision\<close> returns the message itself: the same function
  and the same entries, in the same order.
\<close>

theorem round_trip:
  assumes keys: "distinct (map fst (Message.payload m))"
    and entries: "\<forall>kv\<in>set (Message.payload m). integer_key (fst kv) \<and> scalar_value (snd kv)"
    and len: "length (Message.payload m) < 2 ^ 64"
  shows "\<exists>bs. encode_thingset_message m = Inr bs \<and> decode_thingset_message bs None = Inr m"
proof -
  obtain f items where m: "m = Message f items" by (cases m)
  from keys entries len have keys': "distinct (map fst items)"
    and entries': "\<forall>kv\<in>set items. integer_key (fst kv) \<and> scalar_value (snd kv)"
    and len': "length items < 2 ^ 64"
    by (simp_all add: m)
  from encode_length_decode [OF len', of "0xA0"] obtain b0 ext where
    e: "encode_length 0xA0 (length items) = Inr (b0 # ext)"
    and t: "unat b0 div 32 = 5"
    and s: "unat b0 mod 32 < 28"
    and u: "\<And>rest. decode_uint (unat b0 mod 32) (ext @ rest) = Inr (length items, rest)"
    by auto
  from encode_payload_items_decode [OF entries'] obtain bs where
    eb: "\<And>result. encode_payload_items result items = Inr (result @ bs)"
    and db: "\<And>d rest acc. decode_map_items (Suc d) (length items) (bs @ rest) acc
          = Inr (fold (\<lambda>kv a. dict_set a (fst kv) (snd kv)) items acc, rest)"
    by blast
  have fd: "fold (\<lambda>kv a. dict_set a (fst kv) (snd kv)) items [] = items"
    using fold_dict_set_distinct [OF keys', of "[]"] by simp
  define out where "out = word_of_nat (function_value f) # b0 # ext @ bs"
  have enc: "encode_thingset_message m = Inr out"
    by (simp add: encode_thingset_message_def m e eb out_def be_bytes_1 function_value_byte)
  have fn: "parse_thingset_msg_function out = Inr f"
    unfolding out_def by (rule parse_function_value)
  have "decode_map_items (Suc (length (ext @ bs))) (length items) bs []
      = Inr (items, [])"
    using db [of "length (ext @ bs)" "[]" "[]"] by (simp add: fd)
  with t s u [of bs]
  have "decode_item (Suc (length (b0 # ext @ bs))) (b0 # ext @ bs) = Inr (PDict items, [])"
    by (simp add: Let_def decode_length_def del: decode_map_items.simps)
  then have ld: "cbor2_loads (b0 # ext @ bs) = Inr (PDict items)"
    by (simp add: cbor2_loads_def del: decode_item.simps)
  have "parse_thingset_msg_payload out None = Inr items"
    using ld by (simp add: parse_thingset_msg_payload_def parse_thingset_msg_payload_with_def out_def parse_payload_items_fold fd)
  with fn have "decode_thingset_message out None = Inr m"
    by (simp add: decode_thingset_message_def m)
  with enc show ?thesis by blast
qed

theorem round_trip_witness:
  "\<exists>bs. encode_thingset_message (Message PUBLICATION_MESSAGE
            [(PInt 1, PInt 1539335128), (PInt 7, PFloat 0x405EC00000000000),
             (PInt 8, PFloat 0x402E666660000000), (PInt 9, PBool True),
             (PInt 0x4E, PInt (- 854)), (PInt 3, PBytes [0x01, 0x02]), (PInt 4, PNone)])
          = Inr bs
     \<and> decode_thingset_message bs None
          = Inr (Message PUBLICATION_MESSAGE
            [(PInt 1, PInt 1539335128), (PInt 7, PFloat 0x405EC00000000000),
             (PInt 8, PFloat 0x402E666660000000), (PInt 9, PBool True),
             (PInt 0x4E, PInt (- 854)), (PInt 3, PBytes [0x01, 0x02]), (PInt 4, PNone)])"
  using round_trip [of "Message PUBLICATION_MESSAGE
            [(PInt 1, PInt 1539335128), (PInt 7, PFloat 0x405EC00000000000),
             (PInt 8, PFloat 0x402E666660000000), (PInt 9, PBool True),
             (PInt 0x4E, PInt (- 854)), (PInt 3, PBytes [0x01, 0x02]), (PInt 4, PNone)]"]
  by (simp add: cbor_integer_def representable_15_19 representable_123)

end
